theory Spec2Isabelle
  imports Main "HOL-Library.Char_ord" "HOL-Library.List_Lexorder" "HOL-Library.Sublist"
begin

section \<open>The chart-data endpoint of the HR dashboard\<close>

text \<open>
  A shallow embedding of \<^verbatim>\<open>src/app/api/hr/dashboard/charts/route.ts\<close>: the handler
  \<^verbatim>\<open>GET\<close>, the two in-process aggregations it performs and the part of the JavaScript
  run-time they rely on (string conversion of numbers, \<^verbatim>\<open>padStart\<close>, the truthiness
  of strings, the enumeration order of object properties, \<^verbatim>\<open>Array.prototype.sort\<close>
  and \<^verbatim>\<open>slice\<close>). The handler's result is its response, or that it gives none, and
  the calls it makes to its collaborators; what it writes with \<^verbatim>\<open>console.error\<close> is
  left out.
\<close>

subsection \<open>JavaScript values used by the handler\<close>

text \<open>
  \<^verbatim>\<open>a || b\<close> on a string that may be \<^verbatim>\<open>null\<close> or \<^verbatim>\<open>undefined\<close>: the left operand
  when it is truthy (a non-empty string), the right one otherwise.
\<close>

definition truthy :: "string option \<Rightarrow> bool" where
  "truthy x = (case x of None \<Rightarrow> False | Some s \<Rightarrow> s \<noteq> [])"

definition or_else :: "string option \<Rightarrow> string \<Rightarrow> string" where
  "or_else x d = (case x of None \<Rightarrow> d | Some s \<Rightarrow> if s = [] then d else s)"

text \<open>
  \<^verbatim>\<open>String(n)\<close> of an integral number: its decimal digits, with a minus sign when it is
  negative. \<^verbatim>\<open>NaN\<close> prints as \<^verbatim>\<open>NaN\<close>.
\<close>

definition digit_char :: "nat \<Rightarrow> char" where
  "digit_char d = char_of (48 + d)"

fun digits :: "nat \<Rightarrow> string" where
  "digits n = (if n < 10 then [digit_char n] else digits (n div 10) @ [digit_char (n mod 10)])"

declare digits.simps [simp del]

datatype js_number = NaN | Num int

fun String_of :: "js_number \<Rightarrow> string" where
  "String_of NaN = ''NaN''"
| "String_of (Num i) = (if i < 0 then CHR ''-'' # digits (nat (- i)) else digits (nat i))"

fun js_add :: "js_number \<Rightarrow> int \<Rightarrow> js_number" where
  "js_add NaN k = NaN"
| "js_add (Num i) k = Num (i + k)"

text \<open>\<^verbatim>\<open>s.padStart(n, c)\<close> for a one-character pad string.\<close>

definition padStart :: "nat \<Rightarrow> char \<Rightarrow> string \<Rightarrow> string" where
  "padStart n c s = replicate (n - length s) c @ s"

text \<open>
  A \<^verbatim>\<open>Date\<close> object, as far as the handler reads it: \<^verbatim>\<open>getFullYear()\<close> and
  \<^verbatim>\<open>getMonth()\<close> (the month index, from 0) in the local time zone of the server
  process. Both are \<^verbatim>\<open>NaN\<close> for an invalid date.
\<close>

datatype js_date = Invalid_Date | Local_Date int nat

fun getFullYear :: "js_date \<Rightarrow> js_number" where
  "getFullYear Invalid_Date = NaN"
| "getFullYear (Local_Date y m) = Num y"

fun getMonth :: "js_date \<Rightarrow> js_number" where
  "getMonth Invalid_Date = NaN"
| "getMonth (Local_Date y m) = Num (int m)"

text \<open>
  \<^verbatim>\<open>a.localeCompare(b)\<close>. The month keys compared by the handler are built from
  decimal digits, \<^verbatim>\<open>-\<close> and the letters of \<^verbatim>\<open>NaN\<close>; on such strings the collation
  order is the lexicographic order of the character codes, which is the order of
  \<^typ>\<open>string\<close> here.
\<close>

definition localeCompare :: "string \<Rightarrow> string \<Rightarrow> int" where
  "localeCompare a b = (if a < b then - 1 else if a = b then 0 else 1)"

text \<open>
  \<^verbatim>\<open>xs.sort(cmp)\<close>: the sort is stable (ECMAScript 2019), so for a comparator that
  is a total preorder its result is that of insertion sort.
\<close>

fun insert_by :: "('a \<Rightarrow> 'a \<Rightarrow> int) \<Rightarrow> 'a \<Rightarrow> 'a list \<Rightarrow> 'a list" where
  "insert_by cmp x [] = [x]"
| "insert_by cmp x (y # ys) = (if cmp x y \<le> 0 then x # y # ys else y # insert_by cmp x ys)"

definition Array_sort :: "('a \<Rightarrow> 'a \<Rightarrow> int) \<Rightarrow> 'a list \<Rightarrow> 'a list" where
  "Array_sort cmp xs = foldr (insert_by cmp) xs []"

text \<open>\<^verbatim>\<open>xs.slice(-n)\<close>, the last \<open>n\<close> elements, and \<^verbatim>\<open>xs.slice(0, n)\<close>, the first.\<close>

definition slice_last :: "nat \<Rightarrow> 'a list \<Rightarrow> 'a list" where
  "slice_last n xs = drop (length xs - n) xs"

definition slice_first :: "nat \<Rightarrow> 'a list \<Rightarrow> 'a list" where
  "slice_first n xs = take n xs"

subsection \<open>Objects used as dictionaries\<close>

text \<open>
  \<^verbatim>\<open>monthCounts\<close> and \<^verbatim>\<open>jobCounts\<close> are plain objects. An object is modelled by its
  own properties in the order of their creation. \<^verbatim>\<open>Object.entries\<close> and
  \<^verbatim>\<open>Object.values\<close> do not enumerate in that order: the keys that are array indices
  (the canonical decimal form of an integer below \<open>2\<^sup>3\<^sup>2 - 1\<close>) come first, in
  ascending numeric order, and the other keys follow in creation order.
\<close>

type_synonym 'v js_object = "(string \<times> 'v) list"

definition is_digit :: "char \<Rightarrow> bool" where
  "is_digit c = (CHR ''0'' \<le> c \<and> c \<le> CHR ''9'')"

definition decimal :: "string \<Rightarrow> nat" where
  "decimal s = foldl (\<lambda>n c. 10 * n + (of_char c - 48)) 0 s"

definition is_array_index :: "string \<Rightarrow> bool" where
  "is_array_index s =
     (s \<noteq> [] \<and> list_all is_digit s \<and> (hd s = CHR ''0'' \<longrightarrow> length s = 1)
      \<and> length s \<le> 10 \<and> decimal s < 4294967295)"

definition Object_entries :: "'v js_object \<Rightarrow> (string \<times> 'v) list" where
  "Object_entries obj =
     sort_key (\<lambda>p. decimal (fst p)) (filter (\<lambda>p. is_array_index (fst p)) obj)
     @ filter (\<lambda>p. \<not> is_array_index (fst p)) obj"

definition Object_values :: "'v js_object \<Rightarrow> 'v list" where
  "Object_values obj = map snd (Object_entries obj)"

text \<open>
  A property read \<^verbatim>\<open>obj[k]\<close> also finds what \<^verbatim>\<open>Object.prototype\<close> provides; these
  are its property names. Each of them holds a function or an object, hence a truthy
  value.
\<close>

definition Object_prototype_names :: "string list" where
  "Object_prototype_names =
     [''constructor'', ''__defineGetter__'', ''__defineSetter__'', ''hasOwnProperty'',
      ''__lookupGetter__'', ''__lookupSetter__'', ''isPrototypeOf'', ''propertyIsEnumerable'',
      ''toString'', ''valueOf'', ''__proto__'', ''toLocaleString'']"

subsection \<open>Rows of the response\<close>

text \<open>
  An aggregate row is \<^verbatim>\<open>{ month, count }\<close> or \<^verbatim>\<open>{ job_id, job_title, count }\<close>.
\<close>

datatype row =
    Month (month: string) (count: nat)
  | Job (job_id: string) (job_title: string) (count: nat)

subsection \<open>Monthly aggregation (lines 134 to 145)\<close>

text \<open>
  The month key of a date:
  \<^verbatim>\<open>`${date.getFullYear()}-${String(date.getMonth() + 1).padStart(2, '0')}`\<close>.
\<close>

definition monthKey :: "js_date \<Rightarrow> string" where
  "monthKey date =
     String_of (getFullYear date) @ ''-''
       @ padStart 2 (CHR ''0'') (String_of (js_add (getMonth date) 1))"

text \<open>
  One step of the \<^verbatim>\<open>forEach\<close>:
  \<^verbatim>\<open>monthCounts[monthKey] = (monthCounts[monthKey] || 0) + 1\<close>. A month key holds a
  \<^verbatim>\<open>-\<close>, so it is never a property name of \<^verbatim>\<open>Object.prototype\<close> (lemma
  \<open>monthKey_not_inherited\<close>) and the read sees own properties only. Assigning to an
  existing key keeps its place; a new key is created last.
\<close>

fun bump :: "string \<Rightarrow> nat js_object \<Rightarrow> nat js_object" where
  "bump k [] = [(k, 0 + 1)]"
| "bump k ((k', c) # obj) = (if k' = k then (k', c + 1) # obj else (k', c) # bump k obj)"

definition monthCounts :: "(int \<Rightarrow> js_date) \<Rightarrow> int list \<Rightarrow> nat js_object" where
  "monthCounts newDate applications =
     fold (\<lambda>created_at obj. bump (monthKey (newDate created_at)) obj) applications []"

definition monthlyData :: "(int \<Rightarrow> js_date) \<Rightarrow> int list \<Rightarrow> row list" where
  "monthlyData newDate applications =
     slice_last 12
       (Array_sort (\<lambda>a b. localeCompare (month a) (month b))
          (map (\<lambda>(month, count). Month month count)
             (Object_entries (monthCounts newDate applications))))"

subsection \<open>By-job aggregation (lines 191 to 205)\<close>

text \<open>
  A row fetched by the by-job query: the application's \<^verbatim>\<open>job_id\<close> and the embedded
  \<^verbatim>\<open>jobs\<close> object of the join, which is \<^verbatim>\<open>null\<close> (\<open>None\<close>) when no job matches and
  otherwise holds the job's \<^verbatim>\<open>title\<close>, itself nullable.
\<close>

record app_with_job =
  ja_job_id :: "string option"
  ja_jobs :: "string option option"

text \<open>\<^verbatim>\<open>app.jobs?.title || 'Unknown Job'\<close> and \<^verbatim>\<open>app.job_id || 'unknown'\<close>.\<close>

definition jobTitle_of :: "app_with_job \<Rightarrow> string" where
  "jobTitle_of app = (case ja_jobs app of None \<Rightarrow> ''Unknown Job'' | Some title \<Rightarrow> or_else title ''Unknown Job'')"

definition jobId_of :: "app_with_job \<Rightarrow> string" where
  "jobId_of app = or_else (ja_job_id app) ''unknown''"

text \<open>\<^verbatim>\<open>jobCounts[jobId].count++\<close> on an own property.\<close>

fun incr_count :: "string \<Rightarrow> row js_object \<Rightarrow> row js_object" where
  "incr_count k [] = []"
| "incr_count k ((k', r) # obj) =
     (if k' = k then (k', Job (job_id r) (job_title r) (count r + 1)) # obj
      else (k', r) # incr_count k obj)"

text \<open>
  One step of the \<^verbatim>\<open>forEach\<close>. When \<^verbatim>\<open>jobId\<close> is a property name of
  \<^verbatim>\<open>Object.prototype\<close>, the read \<^verbatim>\<open>jobCounts[jobId]\<close> finds the inherited value, which
  is truthy: no own property is created, and the increment goes to the inherited
  value, so \<^verbatim>\<open>jobCounts\<close> stays as it is.
\<close>

definition count_job :: "app_with_job \<Rightarrow> row js_object \<Rightarrow> row js_object" where
  "count_job app jobCounts =
     (let jobTitle = jobTitle_of app;
          jobId = jobId_of app
      in if jobId \<in> set Object_prototype_names then jobCounts
         else incr_count jobId
                (if map_of jobCounts jobId = None
                 then jobCounts @ [(jobId, Job jobId jobTitle 0)]
                 else jobCounts))"

definition jobCounts :: "app_with_job list \<Rightarrow> row js_object" where
  "jobCounts applications = fold count_job applications []"

definition jobData :: "app_with_job list \<Rightarrow> row list" where
  "jobData applications =
     slice_first 10
       (Array_sort (\<lambda>a b. int (count b) - int (count a))
          (Object_values (jobCounts applications)))"

subsection \<open>The data store and the session provider\<close>

text \<open>
  Modelled from the spec: the tables behind the client that \<^verbatim>\<open>createClient()\<close> of
  \<^verbatim>\<open>lib/supabase/server\<close> returns; neither is among the sources. These are the rows of
  the three tables of section 3 of the specification, with the columns the handler uses.
  The column names carry the table's initial, since \<open>id\<close> and \<open>job_id\<close> are taken.
  \<open>a_created_at\<close> is an instant; only the order of instants and the calendar date that
  \<^verbatim>\<open>new Date\<close> derives from one (a parameter of the handler, \<open>newDate\<close>) matter.
\<close>

record profile =
  p_id :: string
  p_role :: string

record job =
  j_id :: string
  j_title :: "string option"
  j_created_by :: string

record application =
  a_job_id :: "string option"
  a_created_at :: int

text \<open>
  Modelled from the spec: what a call of the client gives (section 6: each call may fail
  with an error carrying a message and a code). The awaited promise rejects (\<open>Throws\<close>)
  or resolves (\<open>Returns\<close>). A query resolves to \<^verbatim>\<open>{ data, error }\<close>, as the handler
  destructures it; \<^verbatim>\<open>error\<close> has the fields the handler reads.

  A promise may reject with any value, and \<^verbatim>\<open>catch (error: any)\<close> receives it as it is.
  The handler reads only its \<^verbatim>\<open>message\<close> property, so a value is \<^verbatim>\<open>undefined\<close> or
  \<^verbatim>\<open>null\<close> (\<open>Nullish\<close>), of which no property can be read, or any other value, with its
  \<^verbatim>\<open>message\<close>: a string, or nothing truthy (\<open>None\<close>), as for a value without this
  property. A truthy message is passed on to the body as it is, and is taken to be a
  string.
\<close>

datatype thrown = Nullish | Thrown "string option"

datatype 'a outcome = Throws thrown | Returns 'a

record pg_error =
  message :: "string option"
  details :: "string option"
  hint :: "string option"
  code :: "string option"

record 'a pg_response =
  data :: "'a option"
  error :: "pg_error option"

record auth_response =
  user :: "string option"
  authError :: "pg_error option"

datatype table = Profiles | Jobs | Applications

datatype fault = Fail pg_error | Throw thrown

text \<open>
  Modelled from the spec: the state of the collaborators during one request, that is
  whether \<^verbatim>\<open>createClient()\<close> throws, what \<^verbatim>\<open>auth.getUser()\<close> gives, the tables, and for
  each table whether a query on it fails (the handler queries each table at most once
  in a request).
\<close>

record store =
  createClient :: "thrown option"
  getUser :: "auth_response outcome"
  profiles :: "profile list"
  jobs :: "job list"
  applications :: "application list"
  fault :: "table \<Rightarrow> fault option"

text \<open>
  Modelled from the spec: a query on a table throws, or reports an error and no data, or
  gives the rows it selects.
\<close>

definition run_query :: "store \<Rightarrow> table \<Rightarrow> 'a \<Rightarrow> 'a pg_response outcome" where
  "run_query s t rows =
     (case fault s t of
        Some (Throw e) \<Rightarrow> Throws e
      | Some (Fail e) \<Rightarrow> Returns \<lparr>data = None, error = Some e\<rparr>
      | None \<Rightarrow> Returns \<lparr>data = Some rows, error = None\<rparr>)"

text \<open>The error of \<^verbatim>\<open>single()\<close> when the rows are not exactly one.\<close>

definition not_single :: pg_error where
  "not_single = \<lparr>message = Some ''JSON object requested, multiple (or no) rows returned'',
                  details = None, hint = None, code = Some ''PGRST116''\<rparr>"

text \<open>
  Modelled from the spec: \<^verbatim>\<open>fetchProfile(userId) -> {role}\<close>, which the handler calls as
  \<^verbatim>\<open>from('profiles').select('role').eq('id', uid).single()\<close>. There is an error unless
  exactly one row matches.
\<close>

definition select_role :: "store \<Rightarrow> string \<Rightarrow> string pg_response outcome" where
  "select_role s uid =
     (case filter (\<lambda>p. p_id p = uid) (profiles s) of
        [p] \<Rightarrow> run_query s Profiles (p_role p)
      | _ \<Rightarrow> (case fault s Profiles of
                Some (Throw e) \<Rightarrow> Throws e
              | Some (Fail e) \<Rightarrow> Returns \<lparr>data = None, error = Some e\<rparr>
              | None \<Rightarrow> Returns \<lparr>data = None, error = Some not_single\<rparr>))"

text \<open>
  Modelled from the spec: \<^verbatim>\<open>fetchJobIds(ownerId) -> [id]\<close>, which the handler calls as
  \<^verbatim>\<open>from('jobs').select('id').eq('created_by', uid)\<close>.
\<close>

definition select_job_ids :: "store \<Rightarrow> string \<Rightarrow> string list pg_response outcome" where
  "select_job_ids s uid =
     run_query s Jobs (map j_id (filter (\<lambda>j. j_created_by j = uid) (jobs s)))"

text \<open>
  Modelled from the spec: the filter \<^verbatim>\<open>{jobIds?}\<close> of the two queries on applications,
  which the handler sets with \<^verbatim>\<open>.in('job_id', jobIds)\<close> or leaves out (\<open>None\<close>); a
  \<^verbatim>\<open>null\<close> \<^verbatim>\<open>job_id\<close> is in no list.
\<close>

definition in_job_ids :: "string list option \<Rightarrow> application \<Rightarrow> bool" where
  "in_job_ids scope a =
     (case scope of
        None \<Rightarrow> True
      | Some ids \<Rightarrow> (case a_job_id a of None \<Rightarrow> False | Some k \<Rightarrow> k \<in> set ids))"

text \<open>
  Modelled from the spec: \<^verbatim>\<open>fetchApplications(filter)\<close>, which the handler calls as
  \<^verbatim>\<open>from('applications').select('created_at').order('created_at', { ascending: false })\<close>,
  with the filter.
\<close>

definition select_created_at :: "store \<Rightarrow> string list option \<Rightarrow> int list pg_response outcome" where
  "select_created_at s scope =
     run_query s Applications
       (map a_created_at
          (sort_key (\<lambda>a. - a_created_at a) (filter (in_job_ids scope) (applications s))))"

text \<open>
  Modelled from the spec: \<^verbatim>\<open>fetchApplicationsWithJobTitle(filter)\<close>, which the handler
  calls as \<^verbatim>\<open>from('applications').select('job_id, jobs:job_id ( title )')\<close>, with the
  filter: each application with the job its \<^verbatim>\<open>job_id\<close> refers to, if there is one.
\<close>

definition embed_job :: "store \<Rightarrow> application \<Rightarrow> app_with_job" where
  "embed_job s a =
     \<lparr>ja_job_id = a_job_id a,
      ja_jobs = (case a_job_id a of
                   None \<Rightarrow> None
                 | Some k \<Rightarrow> map_option j_title (find (\<lambda>j. j_id j = k) (jobs s)))\<rparr>"

definition select_with_job :: "store \<Rightarrow> string list option \<Rightarrow> app_with_job list pg_response outcome" where
  "select_with_job s scope =
     run_query s Applications (map (embed_job s) (filter (in_job_ids scope) (applications s)))"

subsection \<open>The handler\<close>

text \<open>
  A response is its status and its JSON body: \<^verbatim>\<open>{ success: true, data }\<close> or
  \<^verbatim>\<open>{ success: false, error, code? }\<close>. The handler is an \<^verbatim>\<open>async\<close> function: the promise
  it returns resolves with a response, or rejects when something is thrown that the
  handler does not catch. The handler's result is this reply and the calls it made to
  the session provider and to the store, in order.
\<close>

datatype body = Success "row list" | Failure string "string option"

record response =
  status :: nat
  body :: body

datatype call = Call_getUser | Call_from table

datatype reply = Resolves response | Rejects

type_synonym result = "reply \<times> call list"

record request =
  type_param :: "string option"

definition json :: "body \<Rightarrow> nat \<Rightarrow> response" where
  "json b st = \<lparr>status = st, body = b\<rparr>"

definition success :: "response \<Rightarrow> bool" where
  "success r = (case body r of Success rows \<Rightarrow> True | Failure msg c \<Rightarrow> False)"

definition after :: "call \<Rightarrow> result \<Rightarrow> result" where
  "after c res = (fst res, c # snd res)"

text \<open>
  The \<^verbatim>\<open>catch\<close> block (lines 220 to 226). It reads \<^verbatim>\<open>error.message\<close>: when what was
  thrown is \<^verbatim>\<open>undefined\<close> or \<^verbatim>\<open>null\<close>, this read throws a \<^verbatim>\<open>TypeError\<close> inside the
  block, where nothing catches it, and the handler rejects.
\<close>

definition caught :: "thrown \<Rightarrow> reply" where
  "caught e =
     (case e of
        Nullish \<Rightarrow> Rejects
      | Thrown msg \<Rightarrow>
          Resolves (json (Failure (or_else msg ''Internal server error'') None) 500))"

text \<open>The response to a query error (lines 69 to 85, 115 to 131 and 172 to 188).\<close>

definition store_failure :: "pg_error \<Rightarrow> string \<Rightarrow> response" where
  "store_failure e generic =
     json (Failure (or_else (message e) (or_else (details e) generic))
                   (Some (or_else (code e) ''UNKNOWN_ERROR''))) 500"

text \<open>Step 5, the \<^verbatim>\<open>switch\<close> (lines 99 to 218).\<close>

definition chart_monthly :: "(int \<Rightarrow> js_date) \<Rightarrow> store \<Rightarrow> bool \<Rightarrow> string list \<Rightarrow> result" where
  "chart_monthly newDate s isAdmin jobIds =
     after (Call_from Applications)
       (case select_created_at s (if \<not> isAdmin \<and> length jobIds > 0 then Some jobIds else None) of
          Throws e \<Rightarrow> (caught e, [])
        | Returns r \<Rightarrow>
            (case error r of
               Some e \<Rightarrow> (Resolves (store_failure e ''Failed to fetch applications''), [])
             | None \<Rightarrow>
                 (Resolves (json (Success (monthlyData newDate
                                    (case data r of None \<Rightarrow> [] | Some apps \<Rightarrow> apps))) 200), [])))"

definition chart_by_job :: "store \<Rightarrow> bool \<Rightarrow> string list \<Rightarrow> result" where
  "chart_by_job s isAdmin jobIds =
     after (Call_from Applications)
       (case select_with_job s (if \<not> isAdmin \<and> length jobIds > 0 then Some jobIds else None) of
          Throws e \<Rightarrow> (caught e, [])
        | Returns r \<Rightarrow>
            (case error r of
               Some e \<Rightarrow> (Resolves (store_failure e ''Failed to fetch job data''), [])
             | None \<Rightarrow>
                 (Resolves (json (Success (jobData
                                    (case data r of None \<Rightarrow> [] | Some apps \<Rightarrow> apps))) 200), [])))"

definition charts :: "(int \<Rightarrow> js_date) \<Rightarrow> store \<Rightarrow> string \<Rightarrow> bool \<Rightarrow> string list \<Rightarrow> result" where
  "charts newDate s chartType isAdmin jobIds =
     (if chartType = ''monthly'' then chart_monthly newDate s isAdmin jobIds
      else if chartType = ''by-job'' then chart_by_job s isAdmin jobIds
      else (Resolves (json (Failure (''Invalid chart type: '' @ chartType
                                      @ ''. Supported types: monthly, by-job'') None) 400), []))"

text \<open>Step 4, the job ids of an HR caller (lines 59 to 96).\<close>

definition scoped :: "(int \<Rightarrow> js_date) \<Rightarrow> store \<Rightarrow> string \<Rightarrow> string \<Rightarrow> bool \<Rightarrow> result" where
  "scoped newDate s uid chartType isAdmin =
     (if \<not> isAdmin then
        after (Call_from Jobs)
          (case select_job_ids s uid of
             Throws e \<Rightarrow> (caught e, [])
           | Returns r \<Rightarrow>
               (case error r of
                  Some e \<Rightarrow> (Resolves (store_failure e ''Failed to fetch jobs''), [])
                | None \<Rightarrow>
                    (let jobIds = (case data r of None \<Rightarrow> [] | Some ids \<Rightarrow> ids)
                     in if length jobIds = 0 then (Resolves (json (Success []) 200), [])
                        else charts newDate s chartType isAdmin jobIds)))
      else charts newDate s chartType isAdmin [])"

text \<open>Steps 2 and 3, the profile, the role and the \<^verbatim>\<open>type\<close> parameter (lines 28 to 57).\<close>

definition authorized :: "(int \<Rightarrow> js_date) \<Rightarrow> request \<Rightarrow> store \<Rightarrow> string \<Rightarrow> result" where
  "authorized newDate req s uid =
     after (Call_from Profiles)
       (case select_role s uid of
          Throws e \<Rightarrow> (caught e, [])
        | Returns r \<Rightarrow>
            (case (error r, data r) of
               (None, Some role) \<Rightarrow>
                 (if role \<noteq> ''HR'' \<and> role \<noteq> ''ADMIN''
                  then (Resolves (json (Failure ''Forbidden: HR or ADMIN role required'' None) 403), [])
                  else if \<not> truthy (type_param req)
                  then (Resolves (json (Failure ''Missing required parameter: type'' None) 400), [])
                  else scoped newDate s uid (or_else (type_param req) []) (role = ''ADMIN''))
             | _ \<Rightarrow> (Resolves (json (Failure ''Profile not found'' None) 404), [])))"

text \<open>The handler, from \<^verbatim>\<open>createClient()\<close> and step 1 on (lines 15 to 26).\<close>

definition GET :: "(int \<Rightarrow> js_date) \<Rightarrow> request \<Rightarrow> store \<Rightarrow> result" where
  "GET newDate req s =
     (case createClient s of
        Some e \<Rightarrow> (caught e, [])
      | None \<Rightarrow>
          after Call_getUser
            (case getUser s of
               Throws e \<Rightarrow> (caught e, [])
             | Returns a \<Rightarrow>
                 (case (authError a, user a) of
                    (None, Some uid) \<Rightarrow> authorized newDate req s uid
                  | _ \<Rightarrow> (Resolves (json (Failure ''Unauthorized'' None) 401), []))))"

subsection \<open>Notions used to state the properties\<close>

text \<open>The distinct elements of a list, in the order of their first occurrence.\<close>

primrec first_seen :: "'a list \<Rightarrow> 'a list" where
  "first_seen [] = []"
| "first_seen (x # xs) = x # removeAll x (first_seen xs)"

text \<open>
  The order in which an object enumerates keys that were created in the order \<open>ks\<close>.
\<close>

definition key_order :: "string list \<Rightarrow> string list" where
  "key_order ks = sort_key decimal (filter is_array_index ks) @ filter (\<lambda>k. \<not> is_array_index k) ks"

text \<open>The month keys of the fetched \<^verbatim>\<open>created_at\<close> values, row by row.\<close>

definition month_keys :: "(int \<Rightarrow> js_date) \<Rightarrow> int list \<Rightarrow> string list" where
  "month_keys newDate apps = map (\<lambda>t. monthKey (newDate t)) apps"

text \<open>
  The group keys of the fetched by-job rows, row by row: the \<^verbatim>\<open>jobId\<close> of each row
  that is counted in an own property of \<^verbatim>\<open>jobCounts\<close>. The title of a group is the
  \<^verbatim>\<open>jobTitle\<close> of the first fetched row with its key.
\<close>

definition group_keys :: "app_with_job list \<Rightarrow> string list" where
  "group_keys rows = filter (\<lambda>k. k \<notin> set Object_prototype_names) (map jobId_of rows)"

definition group_title :: "string \<Rightarrow> app_with_job list \<Rightarrow> string" where
  "group_title k rows =
     (case find (\<lambda>a. jobId_of a = k) rows of None \<Rightarrow> ''Unknown Job'' | Some a \<Rightarrow> jobTitle_of a)"

text \<open>
  Calendar order of two dates, by year and month; and the dates whose month key has the
  form \<^verbatim>\<open>YYYY-MM\<close>: a year of four digits and a month index below 12.
\<close>

fun earlier :: "js_date \<Rightarrow> js_date \<Rightarrow> bool" where
  "earlier (Local_Date y m) (Local_Date y' m') = (y < y' \<or> (y = y' \<and> m < m'))"
| "earlier d d' = False"

fun four_digit_year :: "js_date \<Rightarrow> bool" where
  "four_digit_year (Local_Date y m) = (1000 \<le> y \<and> y \<le> 9999 \<and> m < 12)"
| "four_digit_year Invalid_Date = False"

text \<open>
  The row of a group, and the order of the group keys before the truncation: the sort
  by descending count of the enumerated keys.
\<close>

definition group_row :: "app_with_job list \<Rightarrow> string \<Rightarrow> row" where
  "group_row rows k = Job k (group_title k rows) (count_list (group_keys rows) k)"

definition ranking :: "app_with_job list \<Rightarrow> string list" where
  "ranking rows =
     sort_key (\<lambda>k. - int (count_list (group_keys rows) k)) (key_order (first_seen (group_keys rows)))"

text \<open>The key of an aggregate row: its month, or its job id.\<close>

definition row_key :: "row \<Rightarrow> string" where
  "row_key r = (case r of Month m c \<Rightarrow> m | Job k t c \<Rightarrow> k)"

text \<open>The ids of the jobs a user created, which the jobs query selects.\<close>

definition own_job_ids :: "store \<Rightarrow> string \<Rightarrow> string list" where
  "own_job_ids s uid = map j_id (filter (\<lambda>j. j_created_by j = uid) (jobs s))"

text \<open>
  The shape of a response: status 200 with a success body, or one of the failure
  statuses with a failure body.
\<close>

definition envelope_ok :: "response \<Rightarrow> bool" where
  "envelope_ok r =
     (case body r of
        Success rows \<Rightarrow> status r = 200
      | Failure msg c \<Rightarrow> status r \<in> {400, 401, 403, 404, 500})"

text \<open>A reply that, when it is a response, has this shape.\<close>

definition reply_ok :: "reply \<Rightarrow> bool" where
  "reply_ok rp = (case rp of Resolves r \<Rightarrow> envelope_ok r | Rejects \<Rightarrow> True)"

text \<open>Rows with pairwise distinct keys and counts of at least 1.\<close>

definition keyed_once :: "row list \<Rightarrow> bool" where
  "keyed_once rows = (distinct (map row_key rows) \<and> (\<forall>r\<in>set rows. 1 \<le> count r))"

subsection \<open>Example data\<close>

text \<open>
  A calendar for the examples: instants count months, so that instant \<open>t\<close> falls in
  month \<open>t mod 12 + 1\<close> of year \<open>t div 12\<close>; 24288 is January 2024.
\<close>

definition month_clock :: "int \<Rightarrow> js_date" where
  "month_clock t = Local_Date (t div 12) (nat (t mod 12))"

text \<open>
  Fetched \<^verbatim>\<open>created_at\<close> values: three in January 2024 and one in February; one in each
  month from January 2024 to January 2025; the same up to February 2025, which has two;
  and one in each month from December 999 to December 1000.
\<close>

definition four_rows :: "int list" where
  "four_rows = [24288, 24289, 24288, 24288]"

definition thirteen_months :: "int list" where
  "thirteen_months =
     [24288, 24289, 24290, 24291, 24292, 24293, 24294, 24295, 24296, 24297, 24298, 24299, 24300]"

definition fourteen_months :: "int list" where
  "fourteen_months =
     [24301, 24288, 24289, 24290, 24291, 24292, 24293, 24294, 24295, 24296, 24297, 24298, 24299,
      24300, 24301]"

definition year_1000 :: "int list" where
  "year_1000 =
     [11999, 12000, 12001, 12002, 12003, 12004, 12005, 12006, 12007, 12008, 12009, 12010, 12011]"

text \<open>
  Fetched by-job rows: a row with a job id and the title the join found; five rows of
  job a and two each of jobs b and c, b met first; and two rows whose job ids are array
  indices, \<^verbatim>\<open>2\<close> met before \<^verbatim>\<open>1\<close>.
\<close>

definition app_of :: "string \<Rightarrow> string \<Rightarrow> app_with_job" where
  "app_of k t = \<lparr>ja_job_id = Some k, ja_jobs = Some (Some t)\<rparr>"

definition ranked_rows :: "app_with_job list" where
  "ranked_rows =
     [app_of ''job-b'' ''Backend'', app_of ''job-c'' ''Clerk'', app_of ''job-a'' ''Analyst'',
      app_of ''job-a'' ''Analyst'', app_of ''job-a'' ''Analyst'', app_of ''job-b'' ''Backend'',
      app_of ''job-c'' ''Clerk'', app_of ''job-a'' ''Analyst'', app_of ''job-a'' ''Analyst'']"

definition index_rows :: "app_with_job list" where
  "index_rows = [app_of ''2'' ''Dev'', app_of ''1'' ''Ops'']"

text \<open>
  A store: the session is that of \<^verbatim>\<open>hr-1\<close>, who owns jobs a and b; \<^verbatim>\<open>hr-2\<close> owns no
  job; job b has no title; one application has no job id and one refers to a job that
  does not exist. No call fails.
\<close>

definition example_store :: store where
  "example_store =
     \<lparr>createClient = None,
      getUser = Returns \<lparr>user = Some ''hr-1'', authError = None\<rparr>,
      profiles =
        [\<lparr>p_id = ''hr-1'', p_role = ''HR''\<rparr>, \<lparr>p_id = ''hr-2'', p_role = ''HR''\<rparr>,
         \<lparr>p_id = ''admin'', p_role = ''ADMIN''\<rparr>, \<lparr>p_id = ''applicant'', p_role = ''APPLICANT''\<rparr>],
      jobs =
        [\<lparr>j_id = ''job-a'', j_title = Some ''Analyst'', j_created_by = ''hr-1''\<rparr>,
         \<lparr>j_id = ''job-b'', j_title = None, j_created_by = ''hr-1''\<rparr>,
         \<lparr>j_id = ''job-c'', j_title = Some ''Clerk'', j_created_by = ''admin''\<rparr>],
      applications =
        [\<lparr>a_job_id = Some ''job-a'', a_created_at = 24288\<rparr>,
         \<lparr>a_job_id = Some ''job-c'', a_created_at = 24289\<rparr>,
         \<lparr>a_job_id = Some ''job-a'', a_created_at = 24289\<rparr>,
         \<lparr>a_job_id = None, a_created_at = 24290\<rparr>,
         \<lparr>a_job_id = Some ''job-b'', a_created_at = 24290\<rparr>,
         \<lparr>a_job_id = Some ''job-z'', a_created_at = 24291\<rparr>],
      fault = (\<lambda>t. None)\<rparr>"

text \<open>
  The example store with another user signed in, and with a failing query; two errors a
  query may report.
\<close>

definition signed_in :: "string \<Rightarrow> store \<Rightarrow> store" where
  "signed_in uid s = s\<lparr>getUser := Returns \<lparr>user = Some uid, authError = None\<rparr>\<rparr>"

definition boom :: pg_error where
  "boom = \<lparr>message = Some ''connection reset'', details = None, hint = None, code = None\<rparr>"

definition timeout_error :: pg_error where
  "timeout_error = \<lparr>message = None, details = Some [], hint = None, code = Some ''57014''\<rparr>"

definition failing :: "table \<Rightarrow> fault \<Rightarrow> store \<Rightarrow> store" where
  "failing t f s = s\<lparr>fault := (fault s)(t := Some f)\<rparr>"

text \<open>
  A store that differs from the example store in what other users own: one more
  profile, one more job, and other applications of jobs that \<^verbatim>\<open>hr-1\<close> does not own.
\<close>

definition other_store :: store where
  "other_store =
     example_store
       \<lparr>profiles := \<lparr>p_id = ''hr-3'', p_role = ''HR''\<rparr> # profiles example_store,
        jobs := \<lparr>j_id = ''job-d'', j_title = Some ''Driver'', j_created_by = ''hr-3''\<rparr>
                # jobs example_store,
        applications :=
          [\<lparr>a_job_id = Some ''job-d'', a_created_at = 24270\<rparr>,
           \<lparr>a_job_id = Some ''job-a'', a_created_at = 24288\<rparr>,
           \<lparr>a_job_id = Some ''job-d'', a_created_at = 24289\<rparr>,
           \<lparr>a_job_id = Some ''job-a'', a_created_at = 24289\<rparr>,
           \<lparr>a_job_id = Some ''job-b'', a_created_at = 24290\<rparr>]\<rparr>"

section \<open>Properties\<close>

subsection \<open>Sorting and enumeration\<close>

lemma set_first_seen [simp]: "set (first_seen xs) = set xs"
  by (induction xs) auto

lemma distinct_first_seen [simp]: "distinct (first_seen xs)"
  by (induction xs) (auto simp: distinct_removeAll)

lemma first_seen_snoc:
  "first_seen (xs @ [x]) = (if x \<in> set xs then first_seen xs else first_seen xs @ [x])"
  by (induction xs) auto

lemma insert_by_insort:
  assumes "\<And>x y. (cmp x y \<le> 0) = (f x \<le> f y)"
  shows "insert_by cmp x ys = insort_key f x ys"
  by (induction ys) (simp_all add: assms)

lemma Array_sort_sort_key:
  assumes "\<And>x y. (cmp x y \<le> 0) = (f x \<le> f y)"
  shows "Array_sort cmp xs = sort_key f xs"
  by (induction xs) (simp_all add: Array_sort_def sort_key_def insert_by_insort [OF assms])

lemma Array_sort_month:
  "Array_sort (\<lambda>a b. localeCompare (month a) (month b)) xs = sort_key month xs"
  by (rule Array_sort_sort_key) (auto simp: localeCompare_def)

lemma Array_sort_count:
  "Array_sort (\<lambda>a b. int (count b) - int (count a)) xs = sort_key (\<lambda>r. - int (count r)) xs"
  by (rule Array_sort_sort_key) auto

lemma insort_key_map:
  "insort_key f (g x) (map g ys) = map g (insort_key (\<lambda>y. f (g y)) x ys)"
  by (induction ys) simp_all

lemma sort_key_map: "sort_key f (map g xs) = map g (sort_key (\<lambda>y. f (g y)) xs)"
  by (induction xs) (simp_all add: insort_key_map)

lemma sort_distinct: "distinct xs \<Longrightarrow> sort xs = sorted_list_of_set (set xs)"
  by (simp add: sorted_list_of_set_sort_remdups distinct_remdups_id)

lemma Object_entries_map:
  "Object_entries (map (\<lambda>k. (k, g k)) U) = map (\<lambda>k. (k, g k)) (key_order U)"
  by (simp add: Object_entries_def key_order_def filter_map comp_def sort_key_map)

lemma Object_values_map: "Object_values (map (\<lambda>k. (k, g k)) U) = map g (key_order U)"
  by (simp add: Object_values_def Object_entries_map comp_def)

lemma key_order_no_index: "\<forall>k\<in>set ks. \<not> is_array_index k \<Longrightarrow> key_order ks = ks"
  by (simp add: key_order_def)

lemma set_key_order [simp]: "set (key_order ks) = set ks"
  by (auto simp: key_order_def)

lemma distinct_key_order [simp]: "distinct ks \<Longrightarrow> distinct (key_order ks)"
  by (auto simp: key_order_def)

lemma length_key_order [simp]: "length (key_order ks) = length ks"
  using sum_length_filter_compl [of is_array_index ks] by (simp add: key_order_def)

subsection \<open>The monthly aggregation in closed form\<close>

lemma bump_map:
  "distinct U \<Longrightarrow> bump k (map (\<lambda>x. (x, c x)) U) =
     (if k \<in> set U then map (\<lambda>x. (x, if x = k then c x + 1 else c x)) U
      else map (\<lambda>x. (x, c x)) U @ [(k, 1)])"
  by (induction U) auto

lemma fold_bump: "fold bump ks [] = map (\<lambda>k. (k, count_list ks k)) (first_seen ks)"
proof (induction ks rule: rev_induct)
  case Nil
  show ?case by simp
next
  case (snoc k ks)
  have "fold bump (ks @ [k]) [] = bump k (map (\<lambda>x. (x, count_list ks x)) (first_seen ks))"
    by (simp add: snoc.IH)
  also have "\<dots> = map (\<lambda>x. (x, count_list (ks @ [k]) x)) (first_seen (ks @ [k]))"
    by (auto simp: bump_map first_seen_snoc)
  finally show ?case .
qed

lemma minus_in_monthKey: "CHR ''-'' \<in> set (monthKey d)"
  by (simp add: monthKey_def)

lemma array_index_digits: "is_array_index s \<Longrightarrow> c \<in> set s \<Longrightarrow> is_digit c"
  by (simp add: is_array_index_def list_all_iff)

lemma monthKey_not_array_index: "\<not> is_array_index (monthKey d)"
  using array_index_digits [OF _ minus_in_monthKey, of d] by (auto simp: is_digit_def)

lemma monthKey_not_inherited: "monthKey d \<notin> set Object_prototype_names"
  using minus_in_monthKey [of d] by (auto simp: Object_prototype_names_def)

lemma monthCounts_eq:
  "monthCounts newDate apps =
     map (\<lambda>k. (k, count_list (month_keys newDate apps) k)) (first_seen (month_keys newDate apps))"
  by (simp add: monthCounts_def month_keys_def fold_bump [symmetric] fold_map comp_def)

lemma monthlyData_eq:
  "monthlyData newDate apps =
     map (\<lambda>k. Month k (count_list (month_keys newDate apps) k))
       (slice_last 12 (sorted_list_of_set (set (month_keys newDate apps))))"
proof -
  let ?ks = "month_keys newDate apps"
  have "\<forall>k\<in>set (first_seen ?ks). \<not> is_array_index k"
    by (auto simp: month_keys_def monthKey_not_array_index)
  then have "Object_entries (monthCounts newDate apps)
               = map (\<lambda>k. (k, count_list ?ks k)) (first_seen ?ks)"
    by (simp only: monthCounts_eq Object_entries_map key_order_no_index)
  then have "monthlyData newDate apps
               = slice_last 12 (sort_key month (map (\<lambda>k. Month k (count_list ?ks k)) (first_seen ?ks)))"
    by (simp add: monthlyData_def Array_sort_month comp_def)
  also have "\<dots> = slice_last 12 (map (\<lambda>k. Month k (count_list ?ks k)) (sort (first_seen ?ks)))"
    by (simp add: sort_key_map)
  also have "\<dots> = map (\<lambda>k. Month k (count_list ?ks k)) (slice_last 12 (sort (first_seen ?ks)))"
    by (simp add: slice_last_def drop_map)
  finally show ?thesis by (simp add: sort_distinct)
qed

subsection \<open>The by-job aggregation in closed form\<close>

lemma incr_count_map:
  "distinct U \<Longrightarrow> incr_count k (map (\<lambda>x. (x, Job x (t x) (c x))) U)
     = map (\<lambda>x. (x, Job x (t x) (if x = k then c x + 1 else c x))) U"
  by (induction U) auto

lemma incr_count_new:
  "k \<notin> set U \<Longrightarrow> incr_count k (map (\<lambda>x. (x, h x)) U @ [(k, Job k t 0)])
     = map (\<lambda>x. (x, h x)) U @ [(k, Job k t 1)]"
  by (induction U) auto

lemma map_of_keyed: "map_of (map (\<lambda>x. (x, h x)) U) k = (if k \<in> set U then Some (h k) else None)"
  by (induction U) auto

lemma find_snoc:
  "find P (xs @ [x]) = (case find P xs of None \<Rightarrow> if P x then Some x else None | Some y \<Rightarrow> Some y)"
  by (induction xs) auto

lemma find_jobId_None:
  "jobId_of a \<notin> jobId_of ` set rows \<Longrightarrow> find (\<lambda>b. jobId_of b = jobId_of a) rows = None"
  by (induction rows) auto

lemma find_jobId_Some:
  "k \<in> jobId_of ` set rows \<Longrightarrow> \<exists>b. find (\<lambda>b. jobId_of b = k) rows = Some b"
  by (induction rows) auto

lemma group_title_snoc:
  assumes "k \<in> jobId_of ` set rows"
  shows "group_title k (rows @ [a]) = group_title k rows"
proof -
  from find_jobId_Some [OF assms] obtain b where "find (\<lambda>b. jobId_of b = k) rows = Some b" ..
  then show ?thesis
    by (simp add: group_title_def find_snoc)
qed

lemma group_title_new:
  assumes "jobId_of a \<notin> jobId_of ` set rows"
  shows "group_title (jobId_of a) (rows @ [a]) = jobTitle_of a"
  by (simp add: group_title_def find_snoc find_jobId_None [OF assms])

lemma set_group_keys:
  "set (group_keys rows) = {k \<in> jobId_of ` set rows. k \<notin> set Object_prototype_names}"
  by (auto simp: group_keys_def)


lemma jobCounts_snoc: "jobCounts (rows @ [a]) = count_job a (jobCounts rows)"
  by (simp add: jobCounts_def)

lemma count_job_inherited:
  "jobId_of a \<in> set Object_prototype_names \<Longrightarrow> count_job a obj = obj"
  by (simp add: count_job_def)

lemma count_job_seen:
  assumes "jobId_of a \<notin> set Object_prototype_names" and "jobId_of a \<in> set U" and "distinct U"
  shows "count_job a (map (\<lambda>x. (x, Job x (t x) (c x))) U)
           = map (\<lambda>x. (x, Job x (t x) (if x = jobId_of a then c x + 1 else c x))) U"
  using assms by (simp add: count_job_def map_of_keyed incr_count_map Let_def)

lemma count_job_new:
  assumes "jobId_of a \<notin> set Object_prototype_names" and "jobId_of a \<notin> set U"
  shows "count_job a (map (\<lambda>x. (x, h x)) U)
           = map (\<lambda>x. (x, h x)) U @ [(jobId_of a, Job (jobId_of a) (jobTitle_of a) 1)]"
  using assms by (simp add: count_job_def map_of_keyed incr_count_new Let_def)


lemma jobCounts_eq:
  "jobCounts rows =
     map (\<lambda>k. (k, Job k (group_title k rows) (count_list (group_keys rows) k)))
       (first_seen (group_keys rows))"
proof (induction rows rule: rev_induct)
  case Nil
  show ?case by (simp add: jobCounts_def group_keys_def)
next
  case (snoc a rows)
  let ?ks = "group_keys rows"
  let ?k = "jobId_of a"
  let ?U = "first_seen ?ks"
  have titles: "group_title k (rows @ [a]) = group_title k rows" if "k \<in> set ?U" for k
    using that by (intro group_title_snoc) (auto simp: set_group_keys)
  show ?case
  proof (cases "?k \<in> set Object_prototype_names")
    case True
    then have "group_keys (rows @ [a]) = ?ks"
      by (simp add: group_keys_def)
    moreover have "map (\<lambda>k. (k, Job k (group_title k (rows @ [a])) (count_list ?ks k))) ?U
                     = map (\<lambda>k. (k, Job k (group_title k rows) (count_list ?ks k))) ?U"
      by (rule map_cong) (simp_all add: titles)
    ultimately show ?thesis
      using True by (simp only: jobCounts_snoc snoc.IH count_job_inherited)
  next
    case False
    then have keys: "group_keys (rows @ [a]) = ?ks @ [?k]"
      by (simp add: group_keys_def)
    show ?thesis
    proof (cases "?k \<in> set ?ks")
      case True
      have "jobCounts (rows @ [a])
              = map (\<lambda>x. (x, Job x (group_title x rows)
                              (if x = ?k then count_list ?ks x + 1 else count_list ?ks x))) ?U"
        using False True by (simp only: jobCounts_snoc snoc.IH) (simp add: count_job_seen)
      also have "\<dots> = map (\<lambda>x. (x, Job x (group_title x (rows @ [a]))
                                   (count_list (?ks @ [?k]) x))) ?U"
        by (rule map_cong) (auto simp: titles)
      finally show ?thesis
        using True by (simp add: keys first_seen_snoc)
    next
      case new: False
      with False have "?k \<notin> jobId_of ` set rows"
        by (auto simp: set_group_keys)
      then have title: "group_title ?k (rows @ [a]) = jobTitle_of a"
        by (rule group_title_new)
      have "jobCounts (rows @ [a])
              = map (\<lambda>x. (x, Job x (group_title x rows) (count_list ?ks x))) ?U
                @ [(?k, Job ?k (jobTitle_of a) 1)]"
        using False new by (simp only: jobCounts_snoc snoc.IH) (simp add: count_job_new)
      also have "map (\<lambda>x. (x, Job x (group_title x rows) (count_list ?ks x))) ?U
          = map (\<lambda>x. (x, Job x (group_title x (rows @ [a])) (count_list (?ks @ [?k]) x))) ?U"
        using new by (intro map_cong) (auto simp: titles)
      finally show ?thesis
        using new by (simp add: keys first_seen_snoc title count_list_0_iff)
    qed
  qed
qed

lemma jobData_eq:
  "jobData rows =
     take 10 (sort_key (\<lambda>r. - int (count r))
       (map (\<lambda>k. Job k (group_title k rows) (count_list (group_keys rows) k))
          (key_order (first_seen (group_keys rows)))))"
  by (simp add: jobData_def slice_first_def Array_sort_count jobCounts_eq Object_values_map)

subsection \<open>Month keys and calendar order\<close>

lemma digit_char_less: "a < 10 \<Longrightarrow> b < 10 \<Longrightarrow> (digit_char a < digit_char b) = (a < b)"
  by (simp add: digit_char_def less_char_def)

lemma digit_char_eq: "a < 10 \<Longrightarrow> b < 10 \<Longrightarrow> (digit_char a = digit_char b) = (a = b)"
  by (auto simp: digit_char_def dest!: arg_cong [where f = "of_char :: char \<Rightarrow> nat"])

lemma digits_nonempty [simp]: "digits n \<noteq> []" "[] \<noteq> digits n"
  by (simp_all add: digits.simps [of n])

lemma length_digits: "10 ^ k \<le> n \<Longrightarrow> n < 10 ^ Suc k \<Longrightarrow> length (digits n) = Suc k"
proof (induction k arbitrary: n)
  case 0
  then show ?case by (simp add: digits.simps [of n])
next
  case (Suc k)
  define p :: nat where "p = 10 ^ k"
  have "1 \<le> p"
    by (simp add: p_def)
  moreover from Suc.prems have "10 * p \<le> n" "n < 100 * p"
    by (simp_all add: p_def)
  ultimately have "p \<le> n div 10" "n div 10 < 10 * p" "\<not> n < 10"
    by arith+
  then have "length (digits (n div 10)) = Suc k" "\<not> n < 10"
    using Suc.IH [of "n div 10"] by (simp_all add: p_def)
  then show ?case
    by (simp add: digits.simps [of n])
qed

lemma append_less_append:
  "length xs = length xs' \<Longrightarrow> (xs @ ys < xs' @ ys') = (xs < xs' \<or> xs = xs' \<and> ys < ys')"
  by (induction xs xs' rule: list_induct2) auto

lemma digits_inj: "digits m = digits n \<Longrightarrow> m = n"
proof (induction m arbitrary: n rule: digits.induct)
  case (1 m)
  show ?case
  proof (cases "m < 10")
    case True
    with "1.prems" have "n < 10"
      by (cases "n < 10") (simp_all add: digits.simps [of m] digits.simps [of n])
    with True "1.prems" show ?thesis
      by (simp add: digits.simps [of m] digits.simps [of n] digit_char_eq)
  next
    case False
    with "1.prems" have n: "\<not> n < 10"
      by (cases "n < 10") (simp_all add: digits.simps [of m] digits.simps [of n])
    with False "1.prems" have "digits (m div 10) = digits (n div 10)" "m mod 10 = n mod 10"
      by (simp_all add: digits.simps [of m] digits.simps [of n] digit_char_eq)
    with "1.IH" [OF False] have "m div 10 = n div 10" "m mod 10 = n mod 10"
      by simp_all
    then show ?thesis
      by (metis div_mult_mod_eq)
  qed
qed

lemma lex_div_mod:
  fixes m n :: nat
  shows "(m div 10 < n div 10 \<or> m div 10 = n div 10 \<and> m mod 10 < n mod 10) = (m < n)"
proof -
  define a b c d where "a = m div 10" and "b = m mod 10" and "c = n div 10" and "d = n mod 10"
  have "m = 10 * a + b" "b < 10" "n = 10 * c + d" "d < 10"
    by (simp_all add: a_def b_def c_def d_def)
  then have "(a < c \<or> a = c \<and> b < d) = (m < n)"
    by arith
  then show ?thesis
    by (simp only: a_def b_def c_def d_def)
qed

lemma digits_less:
  "length (digits m) = length (digits n) \<Longrightarrow> (digits m < digits n) = (m < n)"
proof (induction m arbitrary: n rule: digits.induct)
  case (1 m)
  show ?case
  proof (cases "m < 10")
    case True
    with "1.prems" have "n < 10"
      by (cases "n < 10") (simp_all add: digits.simps [of m] digits.simps [of n])
    with True show ?thesis
      by (simp add: digits.simps [of m] digits.simps [of n] digit_char_less)
  next
    case False
    with "1.prems" have n: "\<not> n < 10"
      by (cases "n < 10") (simp_all add: digits.simps [of m] digits.simps [of n])
    with False "1.prems" have len: "length (digits (m div 10)) = length (digits (n div 10))"
      by (simp add: digits.simps [of m] digits.simps [of n])
    have "(digits m < digits n)
            = (digits (m div 10) < digits (n div 10)
               \<or> digits (m div 10) = digits (n div 10) \<and> m mod 10 < n mod 10)"
      using False n len
      by (simp add: digits.simps [of m] digits.simps [of n] append_less_append digit_char_less)
    also have "\<dots> = (m div 10 < n div 10 \<or> m div 10 = n div 10 \<and> m mod 10 < n mod 10)"
      using "1.IH" [OF False len] digits_inj [of "m div 10" "n div 10"] by auto
    also have "\<dots> = (m < n)"
      by (rule lex_div_mod)
    finally show ?thesis .
  qed
qed


lemma digit_char_0: "digit_char 0 = CHR ''0''"
  by (simp add: digit_char_def char_of_def bit_0 bit_Suc)

lemma pad2_digits:
  assumes "k < 100"
  shows "padStart 2 (CHR ''0'') (digits k) = [digit_char (k div 10), digit_char (k mod 10)]"
proof (cases "k < 10")
  case True
  then show ?thesis
    by (simp add: padStart_def digits.simps [of k] digit_char_0)
next
  case False
  moreover from assms have "k div 10 < 10"
    by arith
  ultimately show ?thesis
    by (simp add: padStart_def digits.simps [of k] digits.simps [of "k div 10"])
qed

lemma monthKey_four_digit:
  assumes "four_digit_year (Local_Date y m)"
  shows "monthKey (Local_Date y m)
           = digits (nat y) @ CHR ''-'' # [digit_char (Suc m div 10), digit_char (Suc m mod 10)]"
    and "length (digits (nat y)) = 4"
proof -
  from assms have "10 ^ 3 \<le> nat y" "nat y < 10 ^ Suc 3"
    by simp_all arith+
  then show "length (digits (nat y)) = 4"
    using length_digits [of 3 "nat y"] by simp
  from assms have "nat (int m + 1) = Suc m" "Suc m < 100" "\<not> y < 0"
    by simp_all
  then show "monthKey (Local_Date y m)
           = digits (nat y) @ CHR ''-'' # [digit_char (Suc m div 10), digit_char (Suc m mod 10)]"
    by (simp add: monthKey_def pad2_digits)
qed

lemma monthKey_less:
  assumes "four_digit_year d" and "four_digit_year d'"
  shows "(monthKey d < monthKey d') = earlier d d'"
proof -
  from assms obtain y m y' m' where d: "d = Local_Date y m" "d' = Local_Date y' m'"
    by (cases d; cases d') simp_all
  from assms d have m: "m < 12" "m' < 12" and y: "0 \<le> y" "0 \<le> y'"
    by simp_all
  note keys = monthKey_four_digit [OF assms(1) [unfolded d]] monthKey_four_digit [OF assms(2) [unfolded d]]
  have "(monthKey d < monthKey d')
          = (digits (nat y) < digits (nat y')
             \<or> digits (nat y) = digits (nat y')
               \<and> [digit_char (Suc m div 10), digit_char (Suc m mod 10)]
                   < [digit_char (Suc m' div 10), digit_char (Suc m' mod 10)])"
    unfolding d by (simp add: keys append_less_append)
  also have "(digits (nat y) < digits (nat y')) = (y < y')"
    using y by (auto simp: digits_less keys)
  also have "(digits (nat y) = digits (nat y')) = (y = y')"
    using digits_inj [of "nat y" "nat y'"] y by auto
  also have "([digit_char (Suc m div 10), digit_char (Suc m mod 10)]
                < [digit_char (Suc m' div 10), digit_char (Suc m' mod 10)])
             = (Suc m div 10 < Suc m' div 10
                \<or> Suc m div 10 = Suc m' div 10 \<and> Suc m mod 10 < Suc m' mod 10)"
    using m by (simp add: digit_char_less digit_char_eq)
  also have "\<dots> = (m < m')"
    using lex_div_mod [of "Suc m" "Suc m'"] by simp
  finally show ?thesis
    by (simp add: d)
qed

subsection \<open>The monthly result\<close>

lemma length_slice_last: "length (slice_last n xs) = min n (length xs)"
  by (simp add: slice_last_def)

lemma set_slice_last: "set (slice_last n xs) \<subseteq> set xs"
  by (simp add: slice_last_def set_drop_subset)

lemma strict_sorted_slice_last: "sorted_wrt (<) xs \<Longrightarrow> sorted_wrt (<) (slice_last n xs)"
  by (simp add: slice_last_def sorted_wrt_drop)

lemma slice_last_greatest:
  assumes "sorted_wrt (<) xs" and "x \<in> set xs" and "x \<notin> set (slice_last n xs)"
    and "y \<in> set (slice_last n xs)"
  shows "x < y"
proof -
  let ?m = "length xs - n"
  have "sorted_wrt (<) (take ?m xs @ drop ?m xs)"
    using assms(1) by simp
  then have "\<forall>a\<in>set (take ?m xs). \<forall>b\<in>set (drop ?m xs). a < b"
    by (simp only: sorted_wrt_append) simp
  moreover have "x \<in> set (take ?m xs)"
    using assms(2,3) append_take_drop_id [of ?m xs] set_append [of "take ?m xs" "drop ?m xs"]
    by (auto simp: slice_last_def)
  ultimately show ?thesis
    using assms(4) by (simp add: slice_last_def)
qed

lemma monthly_months:
  "map month (monthlyData newDate apps)
     = slice_last 12 (sorted_list_of_set (set (month_keys newDate apps)))"
  by (simp add: monthlyData_eq comp_def)

lemma monthly_rows:
  assumes "r \<in> set (monthlyData newDate apps)"
  shows "month r \<in> set (month_keys newDate apps)"
    and "r = Month (month r) (count_list (month_keys newDate apps) (month r))"
  using assms set_slice_last [of 12 "sorted_list_of_set (set (month_keys newDate apps))"]
  by (auto simp: monthlyData_eq)

lemma monthly_length:
  "length (monthlyData newDate apps) = min 12 (card (set (month_keys newDate apps)))"
  by (simp add: monthlyData_eq length_slice_last)

lemma monthly_strict: "sorted_wrt (<) (map month (monthlyData newDate apps))"
  by (simp only: monthly_months strict_sorted_slice_last
        sorted_list_of_set.strict_sorted_key_list_of_set)

lemma monthly_greatest:
  assumes "k \<in> set (month_keys newDate apps)"
    and "k \<notin> month ` set (monthlyData newDate apps)"
    and "r \<in> set (monthlyData newDate apps)"
  shows "k < month r"
proof (rule slice_last_greatest)
  let ?K = "sorted_list_of_set (set (month_keys newDate apps))"
  show "sorted_wrt (<) ?K"
    by (rule sorted_list_of_set.strict_sorted_key_list_of_set)
  show "k \<in> set ?K"
    using assms(1) by simp
  show "k \<notin> set (slice_last 12 ?K)"
    using assms(2) by (simp only: monthly_months [symmetric] set_map) simp
  show "month r \<in> set (slice_last 12 ?K)"
    using assms(3) by (simp only: monthly_months [symmetric] set_map) simp
qed




lemma digit_char_simps:
  "digit_char 0 = CHR ''0''" "digit_char 1 = CHR ''1''" "digit_char (Suc 0) = CHR ''1''"
  "digit_char 2 = CHR ''2''" "digit_char 3 = CHR ''3''" "digit_char 4 = CHR ''4''"
  "digit_char 5 = CHR ''5''" "digit_char 6 = CHR ''6''" "digit_char 7 = CHR ''7''"
  "digit_char 8 = CHR ''8''" "digit_char 9 = CHR ''9''"
  by (simp_all add: digit_char_def char_of_def bit_0 bit_Suc)

lemma digits_numeral:
  "digits (numeral n) =
     (if (numeral n :: nat) < 10 then [digit_char (numeral n)]
      else digits (numeral n div 10) @ [digit_char (numeral n mod 10)])"
  "digits 0 = [digit_char 0]" "digits 1 = [digit_char 1]" "digits (Suc 0) = [digit_char 1]"
  by (simp_all add: digits.simps [of "numeral n"] digits.simps [of 0] digits.simps [of 1]
        digits.simps [of "Suc 0"])

lemmas monthKey_eval = month_keys_def month_clock_def monthKey_def padStart_def digits_numeral
  digit_char_simps

lemma monthlyData_sort:
  "monthlyData newDate apps =
     map (\<lambda>k. Month k (count_list (month_keys newDate apps) k))
       (slice_last 12 (sort (remdups (month_keys newDate apps))))"
  by (simp only: monthlyData_eq sorted_list_of_set_sort_remdups)

lemma month_keys_fourteen_months:
  "month_keys month_clock fourteen_months =
     [''2025-02'', ''2024-01'', ''2024-02'', ''2024-03'', ''2024-04'', ''2024-05'', ''2024-06'',
      ''2024-07'', ''2024-08'', ''2024-09'', ''2024-10'', ''2024-11'', ''2024-12'', ''2025-01'',
      ''2025-02'']"
  by (simp add: fourteen_months_def monthKey_eval)


lemma month_keys_year_1000:
  "month_keys month_clock year_1000 =
     [''999-12'', ''1000-01'', ''1000-02'', ''1000-03'', ''1000-04'', ''1000-05'', ''1000-06'',
      ''1000-07'', ''1000-08'', ''1000-09'', ''1000-10'', ''1000-11'', ''1000-12'']"
  by (simp add: year_1000_def monthKey_eval)


lemma monthly_example:
  assumes img: "newDate ` set apps = {Local_Date 2024 0, Local_Date 2024 1}"
    and c1: "count_list (map newDate apps) (Local_Date 2024 0) = 3"
    and c2: "count_list (map newDate apps) (Local_Date 2024 1) = 1"
  shows "monthlyData newDate apps = [Month ''2024-01'' 3, Month ''2024-02'' 1]"
proof -
  have k: "monthKey (Local_Date 2024 0) = ''2024-01''" "monthKey (Local_Date 2024 1) = ''2024-02''"
    "monthKey (Local_Date 2024 (Suc 0)) = ''2024-02''"
    by (simp_all add: monthKey_eval)
  have ks: "month_keys newDate apps = map monthKey (map newDate apps)"
    by (simp add: month_keys_def)
  have ds: "set (map newDate apps) = {Local_Date 2024 0, Local_Date 2024 1}"
    using img by simp
  then have inj: "inj_on monthKey (set (map newDate apps))"
    by (simp only: ds) (simp add: k)
  have "count_list (month_keys newDate apps) (monthKey (Local_Date 2024 0)) = 3"
    and "count_list (month_keys newDate apps) (monthKey (Local_Date 2024 1)) = 1"
    unfolding ks using c1 c2 by (simp_all only: count_list_inj_map [OF inj] ds insertI1 insertI2)
  moreover have "set (month_keys newDate apps) = {''2024-01'', ''2024-02''}"
    unfolding ks by (simp only: set_map [of monthKey] ds) (simp add: k)
  ultimately show ?thesis
    by (simp add: monthlyData_eq k slice_last_def)
qed

text \<open>
  Claim C6, as amended. The rows of the monthly result have distinct month keys; each is
  the row of a month key of the data, with the number of fetched applications that have
  this key, which is at least 1 (no month is synthesized). The result has one row for
  each distinct month key of the data when there are at most 12 of them, and 12 rows
  otherwise. When the fetched applications fall in January 2024 three times and in
  February 2024 once, and nowhere else, the result is exactly the two rows
  \<^verbatim>\<open>2024-01\<close> with count 3 and \<^verbatim>\<open>2024-02\<close> with count 1, in this order.
\<close>

theorem monthly_rows_per_key:
  "distinct (map month (monthlyData newDate apps))
   \<and> (\<forall>r\<in>set (monthlyData newDate apps).
         month r \<in> set (month_keys newDate apps) \<and> 0 < count r
         \<and> r = Month (month r) (count_list (month_keys newDate apps) (month r)))
   \<and> length (monthlyData newDate apps) = min 12 (card (set (month_keys newDate apps)))
   \<and> (card (set (month_keys newDate apps)) \<le> 12 \<longrightarrow>
         month ` set (monthlyData newDate apps) = set (month_keys newDate apps))
   \<and> (newDate ` set apps = {Local_Date 2024 0, Local_Date 2024 1}
        \<and> count_list (map newDate apps) (Local_Date 2024 0) = 3
        \<and> count_list (map newDate apps) (Local_Date 2024 1) = 1 \<longrightarrow>
         monthlyData newDate apps = [Month ''2024-01'' 3, Month ''2024-02'' 1])"
proof (intro conjI ballI impI)
  show "distinct (map month (monthlyData newDate apps))"
    using monthly_strict [of newDate apps] by (simp add: strict_sorted_iff)
  show "length (monthlyData newDate apps) = min 12 (card (set (month_keys newDate apps)))"
    by (rule monthly_length)
next
  fix r assume r: "r \<in> set (monthlyData newDate apps)"
  then show "month r \<in> set (month_keys newDate apps)"
    and eq: "r = Month (month r) (count_list (month_keys newDate apps) (month r))"
    by (rule monthly_rows)+
  then have "count r = count_list (month_keys newDate apps) (month r)"
    by (metis row.sel(2))
  with \<open>month r \<in> set (month_keys newDate apps)\<close> show "0 < count r"
    using count_list_0_iff [of "month_keys newDate apps" "month r"] by simp
next
  assume "card (set (month_keys newDate apps)) \<le> 12"
  then have "slice_last 12 (sorted_list_of_set (set (month_keys newDate apps)))
               = sorted_list_of_set (set (month_keys newDate apps))"
    by (simp add: slice_last_def)
  then have "set (map month (monthlyData newDate apps)) = set (month_keys newDate apps)"
    by (simp only: monthly_months) simp
  then show "month ` set (monthlyData newDate apps) = set (month_keys newDate apps)"
    by simp
next
  assume "newDate ` set apps = {Local_Date 2024 0, Local_Date 2024 1}
        \<and> count_list (map newDate apps) (Local_Date 2024 0) = 3
        \<and> count_list (map newDate apps) (Local_Date 2024 1) = 1"
  then show "monthlyData newDate apps = [Month ''2024-01'' 3, Month ''2024-02'' 1]"
    by (intro monthly_example) simp_all
qed

text \<open>The theorem at the four applications of the example.\<close>

theorem monthly_rows_per_key_witness:
  "month_clock ` set four_rows = {Local_Date 2024 0, Local_Date 2024 1}
   \<and> count_list (map month_clock four_rows) (Local_Date 2024 0) = 3
   \<and> count_list (map month_clock four_rows) (Local_Date 2024 1) = 1
   \<and> monthlyData month_clock four_rows = [Month ''2024-01'' 3, Month ''2024-02'' 1]
   \<and> month ` set (monthlyData month_clock four_rows) = set (month_keys month_clock four_rows)"
proof -
  have h: "month_clock ` set four_rows = {Local_Date 2024 0, Local_Date 2024 1}"
    "count_list (map month_clock four_rows) (Local_Date 2024 0) = 3"
    "count_list (map month_clock four_rows) (Local_Date 2024 1) = 1"
    by (auto simp: four_rows_def month_clock_def)
  from monthly_rows_per_key [of month_clock four_rows] h
  have r: "monthlyData month_clock four_rows = [Month ''2024-01'' 3, Month ''2024-02'' 1]"
    and "card (set (month_keys month_clock four_rows)) \<le> 12 \<longrightarrow>
         month ` set (monthlyData month_clock four_rows) = set (month_keys month_clock four_rows)"
    and "length (monthlyData month_clock four_rows)
           = min 12 (card (set (month_keys month_clock four_rows)))"
    by blast+
  then have "month ` set (monthlyData month_clock four_rows) = set (month_keys month_clock four_rows)"
    by (simp add: r)
  with h r show ?thesis
    by blast
qed

lemma month_keys_thirteen_months:
  "month_keys month_clock thirteen_months =
     [''2024-01'', ''2024-02'', ''2024-03'', ''2024-04'', ''2024-05'', ''2024-06'', ''2024-07'',
      ''2024-08'', ''2024-09'', ''2024-10'', ''2024-11'', ''2024-12'', ''2025-01'']"
  by (simp add: thirteen_months_def monthKey_eval)

text \<open>
  Claim C6 as stated fails beyond 12 months: with one application in each month from
  January 2024 to January 2025, the data has the month key \<^verbatim>\<open>2024-01\<close> and the result
  has no row for it.
\<close>

theorem monthly_thirteenth_month_dropped:
  "monthlyData month_clock thirteen_months =
     [Month ''2024-02'' 1, Month ''2024-03'' 1, Month ''2024-04'' 1, Month ''2024-05'' 1,
      Month ''2024-06'' 1, Month ''2024-07'' 1, Month ''2024-08'' 1, Month ''2024-09'' 1,
      Month ''2024-10'' 1, Month ''2024-11'' 1, Month ''2024-12'' 1, Month ''2025-01'' 1]
   \<and> 24288 \<in> set thirteen_months \<and> monthKey (month_clock 24288) = ''2024-01''
   \<and> ''2024-01'' \<notin> month ` set (monthlyData month_clock thirteen_months)"
proof -
  have "monthKey (month_clock 24288) = ''2024-01''"
    by (simp add: monthKey_eval)
  then show ?thesis
    by (simp only: monthlyData_sort month_keys_thirteen_months)
       (simp add: slice_last_def thirteen_months_def)
qed

subsection \<open>The by-job result\<close>

lemma jobData_ranking: "jobData rows = map (group_row rows) (take 10 (ranking rows))"
  by (simp add: jobData_eq sort_key_map take_map ranking_def group_row_def)

lemma job_id_group_row [simp]: "job_id (group_row rows k) = k"
  and count_group_row [simp]: "count (group_row rows k) = count_list (group_keys rows) k"
  and job_title_group_row [simp]: "job_title (group_row rows k) = group_title k rows"
  by (simp_all add: group_row_def)

lemma set_ranking [simp]: "set (ranking rows) = set (group_keys rows)"
  by (simp add: ranking_def)

lemma distinct_ranking [simp]: "distinct (ranking rows)"
  by (simp add: ranking_def)

lemma length_ranking: "length (ranking rows) = card (set (group_keys rows))"
  using distinct_card [OF distinct_first_seen, of "group_keys rows"] by (simp add: ranking_def)

lemma sorted_ranking: "sorted (map (\<lambda>k. - int (count_list (group_keys rows) k)) (ranking rows))"
  by (simp add: ranking_def)

lemma job_ids_jobData: "map job_id (jobData rows) = take 10 (ranking rows)"
  by (simp add: jobData_ranking comp_def)

lemma jobData_rows:
  assumes "r \<in> set (jobData rows)"
  shows "job_id r \<in> set (group_keys rows)" and "r = group_row rows (job_id r)"
  using assms set_take_subset [of 10 "ranking rows"] by (auto simp: jobData_ranking)

lemma jobData_length: "length (jobData rows) = min 10 (card (set (group_keys rows)))"
  by (simp add: jobData_ranking length_ranking)

lemma jobData_descending: "sorted_wrt (\<lambda>a b. count b \<le> count a) (jobData rows)"
proof -
  have "sorted (map (\<lambda>k. - int (count_list (group_keys rows) k)) (take 10 (ranking rows)))"
    using sorted_ranking [of rows] by (simp add: take_map [symmetric] sorted_wrt_take)
  then show ?thesis
    by (simp add: jobData_ranking sorted_map sorted_wrt_map)
qed

lemma jobData_top:
  assumes "k \<in> set (group_keys rows)" and "k \<notin> job_id ` set (jobData rows)"
    and "r \<in> set (jobData rows)"
  shows "count_list (group_keys rows) k \<le> count r"
proof -
  let ?h = "\<lambda>k. - int (count_list (group_keys rows) k)"
  let ?X = "ranking rows"
  have "sorted (map ?h (take 10 ?X @ drop 10 ?X))"
    using sorted_ranking [of rows] by simp
  then have le: "\<forall>a\<in>set (take 10 ?X). \<forall>b\<in>set (drop 10 ?X). ?h a \<le> ?h b"
    by (simp only: map_append sorted_append set_map) auto
  have out: "k \<notin> set (take 10 ?X)"
    using assms(2) by (simp only: job_ids_jobData [symmetric] set_map) simp
  have "k \<in> set (take 10 ?X @ drop 10 ?X)"
    using assms(1) by simp
  with out have "k \<in> set (drop 10 ?X)"
    by (simp only: set_append) simp
  moreover have "job_id r \<in> set (take 10 ?X)"
    using assms(3) by (simp only: job_ids_jobData [symmetric] set_map) simp
  ultimately have "?h (job_id r) \<le> ?h k"
    using le by blast
  then show ?thesis
    using jobData_rows(2) [OF assms(3)] by (metis count_group_row neg_le_iff_le of_nat_le_iff)
qed

lemma jobData_ties:
  "prefix (map job_id (filter (\<lambda>r. count r = c) (jobData rows)))
     (filter (\<lambda>k. count_list (group_keys rows) k = c) (key_order (first_seen (group_keys rows))))"
proof -
  let ?h = "\<lambda>k. - int (count_list (group_keys rows) k)"
  let ?U = "key_order (first_seen (group_keys rows))"
  have "map job_id (filter (\<lambda>r. count r = c) (jobData rows))
          = filter (\<lambda>k. ?h k = - int c) (take 10 (ranking rows))"
    by (simp add: jobData_ranking filter_map comp_def)
  moreover have "prefix (filter (\<lambda>k. ?h k = - int c) (take 10 (ranking rows)))
                   (filter (\<lambda>k. ?h k = - int c) (ranking rows))"
    by (intro filter_mono_prefix take_is_prefix)
  moreover have "filter (\<lambda>k. ?h k = - int c) (ranking rows) = filter (\<lambda>k. ?h k = - int c) ?U"
    unfolding ranking_def by (rule sort_key_stable)
  ultimately show ?thesis
    by simp
qed


lemma group_keys_all:
  "\<forall>a\<in>set rows. jobId_of a \<notin> set Object_prototype_names \<Longrightarrow> group_keys rows = map jobId_of rows"
  by (simp add: group_keys_def)

text \<open>
  Claim C4, as amended. For fetched rows none of whose job ids is a property name of
  \<^verbatim>\<open>Object.prototype\<close>: the by-job result is ordered by descending count; it has one
  row for each of the groups when there are at most 10 and 10 rows otherwise; the count
  of a row is the number of fetched rows of its group; and every group left out has a
  count no greater than that of any row of the result. Among rows with equal counts
  the order is that of the enumeration of the object's keys: the rows with a given
  count, in the order of the result, are the first ones of the groups with this count
  in the order in which \<^verbatim>\<open>Object.values\<close> enumerates them (array indices first, in
  ascending numeric order, then the other keys in the order in which they were first
  met). When no job id is an array index this is the order in which the groups were
  first met in the fetched rows.
\<close>

theorem by_job_ranking:
  assumes "\<forall>a\<in>set rows. jobId_of a \<notin> set Object_prototype_names"
  shows "sorted_wrt (\<lambda>a b. count b \<le> count a) (jobData rows)
    \<and> length (jobData rows) = min 10 (card (jobId_of ` set rows))
    \<and> (\<forall>r\<in>set (jobData rows).
          job_id r \<in> jobId_of ` set rows \<and> count r = count_list (map jobId_of rows) (job_id r))
    \<and> (\<forall>k\<in>jobId_of ` set rows. k \<notin> job_id ` set (jobData rows) \<longrightarrow>
          (\<forall>r\<in>set (jobData rows). count_list (map jobId_of rows) k \<le> count r))
    \<and> (\<forall>c. prefix (map job_id (filter (\<lambda>r. count r = c) (jobData rows)))
               (filter (\<lambda>k. count_list (map jobId_of rows) k = c)
                  (key_order (first_seen (map jobId_of rows)))))
    \<and> ((\<forall>a\<in>set rows. \<not> is_array_index (jobId_of a)) \<longrightarrow>
          (\<forall>c. prefix (map job_id (filter (\<lambda>r. count r = c) (jobData rows)))
                 (filter (\<lambda>k. count_list (map jobId_of rows) k = c)
                    (first_seen (map jobId_of rows)))))"
proof -
  note ks = group_keys_all [OF assms]
  have ties: "prefix (map job_id (filter (\<lambda>r. count r = c) (jobData rows)))
               (filter (\<lambda>k. count_list (map jobId_of rows) k = c)
                  (key_order (first_seen (map jobId_of rows))))" for c
    using jobData_ties [of c rows] by (simp only: ks)
  show ?thesis
  proof (intro conjI ballI impI allI)
    show "sorted_wrt (\<lambda>a b. count b \<le> count a) (jobData rows)"
      by (rule jobData_descending)
    show "length (jobData rows) = min 10 (card (jobId_of ` set rows))"
      by (simp add: jobData_length ks)
    show "prefix (map job_id (filter (\<lambda>r. count r = c) (jobData rows)))
               (filter (\<lambda>k. count_list (map jobId_of rows) k = c)
                  (key_order (first_seen (map jobId_of rows))))" for c
      by (rule ties)
  next
    fix r assume r: "r \<in> set (jobData rows)"
    from jobData_rows(1) [OF r] show "job_id r \<in> jobId_of ` set rows"
      by (simp add: ks)
    from jobData_rows(2) [OF r] have "count r = count_list (group_keys rows) (job_id r)"
      by (metis count_group_row)
    then show "count r = count_list (map jobId_of rows) (job_id r)"
      by (simp only: ks)
  next
    fix k r
    assume "k \<in> jobId_of ` set rows" "k \<notin> job_id ` set (jobData rows)" "r \<in> set (jobData rows)"
    then show "count_list (map jobId_of rows) k \<le> count r"
      using jobData_top [of k rows r] by (simp add: ks)
  next
    fix c
    assume "\<forall>a\<in>set rows. \<not> is_array_index (jobId_of a)"
    then have "key_order (first_seen (map jobId_of rows)) = first_seen (map jobId_of rows)"
      by (intro key_order_no_index) simp
    with ties [of c]
    show "prefix (map job_id (filter (\<lambda>r. count r = c) (jobData rows)))
            (filter (\<lambda>k. count_list (map jobId_of rows) k = c) (first_seen (map jobId_of rows)))"
      by simp
  qed
qed

lemmas row_eval = app_of_def jobId_of_def jobTitle_of_def or_else_def

lemma jobData_ranked_rows:
  "jobData ranked_rows =
     [Job ''job-a'' ''Analyst'' 5, Job ''job-b'' ''Backend'' 2, Job ''job-c'' ''Clerk'' 2]"
proof -
  have gk: "group_keys ranked_rows =
      [''job-b'', ''job-c'', ''job-a'', ''job-a'', ''job-a'', ''job-b'', ''job-c'', ''job-a'', ''job-a'']"
    by (simp add: group_keys_def ranked_rows_def row_eval Object_prototype_names_def)
  have ko: "key_order [''job-b'', ''job-c'', ''job-a''] = [''job-b'', ''job-c'', ''job-a'']"
    by (rule key_order_no_index) (simp add: is_array_index_def is_digit_def)
  have "ranking ranked_rows = [''job-a'', ''job-b'', ''job-c'']"
    by (simp add: ranking_def gk ko)
  then show ?thesis
    by (simp add: jobData_ranking group_row_def gk)
       (simp add: group_title_def ranked_rows_def row_eval)
qed

text \<open>
  The theorem at nine rows, five of job a and two each of jobs b and c: a comes before
  b and c, and b, met first, before c.
\<close>

theorem by_job_ranking_witness:
  "jobData ranked_rows =
     [Job ''job-a'' ''Analyst'' 5, Job ''job-b'' ''Backend'' 2, Job ''job-c'' ''Clerk'' 2]
   \<and> map jobId_of ranked_rows =
       [''job-b'', ''job-c'', ''job-a'', ''job-a'', ''job-a'', ''job-b'', ''job-c'', ''job-a'', ''job-a'']
   \<and> sorted_wrt (\<lambda>a b. count b \<le> count a) (jobData ranked_rows)
   \<and> prefix (map job_id (filter (\<lambda>r. count r = 2) (jobData ranked_rows)))
        (filter (\<lambda>k. count_list (map jobId_of ranked_rows) k = 2)
           (first_seen (map jobId_of ranked_rows)))"
proof -
  have ids: "map jobId_of ranked_rows =
       [''job-b'', ''job-c'', ''job-a'', ''job-a'', ''job-a'', ''job-b'', ''job-c'', ''job-a'', ''job-a'']"
    by (simp add: ranked_rows_def row_eval)
  have h1: "\<forall>a\<in>set ranked_rows. jobId_of a \<notin> set Object_prototype_names"
    by (simp add: ranked_rows_def row_eval Object_prototype_names_def)
  have h2: "\<forall>a\<in>set ranked_rows. \<not> is_array_index (jobId_of a)"
    by (simp add: ranked_rows_def row_eval is_array_index_def is_digit_def)
  from by_job_ranking [OF h1] h2
  have "sorted_wrt (\<lambda>a b. count b \<le> count a) (jobData ranked_rows)"
    and "prefix (map job_id (filter (\<lambda>r. count r = 2) (jobData ranked_rows)))
        (filter (\<lambda>k. count_list (map jobId_of ranked_rows) k = 2)
           (first_seen (map jobId_of ranked_rows)))"
    by blast+
  with ids jobData_ranked_rows show ?thesis
    by blast
qed

text \<open>
  Claim C4 as stated fails when job ids are array indices: with one application of job
  \<^verbatim>\<open>2\<close> fetched before one of job \<^verbatim>\<open>1\<close>, the counts are equal and the result lists
  job \<^verbatim>\<open>1\<close> first.
\<close>

theorem by_job_ties_by_index:
  "jobData index_rows = [Job ''1'' ''Ops'' 1, Job ''2'' ''Dev'' 1]
   \<and> map jobId_of index_rows = [''2'', ''1'']"
proof -
  have gk: "group_keys index_rows = [''2'', ''1'']"
    by (simp add: group_keys_def index_rows_def row_eval Object_prototype_names_def)
  have "is_array_index ''1''" "is_array_index ''2''"
    by (simp_all add: is_array_index_def is_digit_def decimal_def)
  then have ko: "key_order [''2'', ''1''] = [''1'', ''2'']"
    by (simp add: key_order_def decimal_def)
  have "ranking index_rows = [''1'', ''2'']"
    by (simp add: ranking_def gk ko)
  then show ?thesis
    by (simp add: jobData_ranking group_row_def gk)
       (simp add: group_title_def index_rows_def row_eval)
qed


lemma find_map: "find P (map f xs) = map_option f (find (\<lambda>x. P (f x)) xs)"
  by (induction xs) simp_all

text \<open>
  Why the theorem leaves out job ids that are property names of \<^verbatim>\<open>Object.prototype\<close>:
  rows with such a job id form no group and are not counted. Two applications of a job
  with the id \<^verbatim>\<open>constructor\<close> leave no row in the result.
\<close>

lemma by_job_inherited_name_not_counted:
  "jobData [app_of ''constructor'' ''Builder'', app_of ''job-a'' ''Analyst'',
            app_of ''constructor'' ''Builder'']
     = [Job ''job-a'' ''Analyst'' 1]"
proof -
  let ?rows = "[app_of ''constructor'' ''Builder'', app_of ''job-a'' ''Analyst'',
                app_of ''constructor'' ''Builder'']"
  have gk: "group_keys ?rows = [''job-a'']"
    by (simp add: group_keys_def row_eval Object_prototype_names_def)
  have ko: "key_order [''job-a''] = [''job-a'']"
    by (rule key_order_no_index) (simp add: is_array_index_def is_digit_def)
  have "ranking ?rows = [''job-a'']"
    by (simp add: ranking_def gk ko)
  then show ?thesis
    by (simp add: jobData_ranking group_row_def gk) (simp add: group_title_def row_eval)
qed

lemma count_list_filter: "P k \<Longrightarrow> count_list (filter P xs) k = count_list xs k"
  by (induction xs) auto

lemma count_group_keys:
  "k \<notin> set Object_prototype_names \<Longrightarrow> count_list (group_keys rows) k = count_list (map jobId_of rows) k"
  unfolding group_keys_def by (rule count_list_filter)

lemma jobData_group:
  assumes "k \<in> set (group_keys rows)"
  shows "group_row rows k \<in> set (jobData rows)
     \<or> length (jobData rows) = 10
       \<and> (\<forall>r\<in>set (jobData rows). count_list (group_keys rows) k \<le> count r)"
proof (cases "k \<in> set (take 10 (ranking rows))")
  case True
  then show ?thesis
    by (simp add: jobData_ranking)
next
  case False
  with assms have "\<not> length (ranking rows) \<le> 10"
    by auto
  then have "length (jobData rows) = 10"
    by (simp add: jobData_ranking)
  moreover from False have "k \<notin> job_id ` set (jobData rows)"
    by (simp only: job_ids_jobData [symmetric] set_map) simp
  then have "\<forall>r\<in>set (jobData rows). count_list (group_keys rows) k \<le> count r"
    using jobData_top [OF assms] by blast
  ultimately show ?thesis
    by blast
qed

lemma jobId_of_embed_job: "jobId_of (embed_job s a) = or_else (a_job_id a) ''unknown''"
  by (simp add: jobId_of_def embed_job_def)

lemma or_else_eq_iff:
  "k \<noteq> [] \<Longrightarrow> k \<noteq> d \<Longrightarrow> (or_else x d = k) = (x = Some k)"
  by (auto simp: or_else_def split: option.splits)

lemma jobData_first_application:
  assumes r: "r \<in> set (jobData (map (embed_job s) apps))"
  shows "\<exists>a. find (\<lambda>a. or_else (a_job_id a) ''unknown'' = job_id r) apps = Some a
        \<and> job_id r = (case a_job_id a of
                        None \<Rightarrow> ''unknown''
                      | Some k \<Rightarrow> if k = [] then ''unknown'' else k)
        \<and> job_title r = (case a_job_id a of
                           None \<Rightarrow> ''Unknown Job''
                         | Some k \<Rightarrow>
                             (case find (\<lambda>j. j_id j = k) (jobs s) of
                                None \<Rightarrow> ''Unknown Job''
                              | Some j \<Rightarrow> (case j_title j of
                                            None \<Rightarrow> ''Unknown Job''
                                          | Some t \<Rightarrow> if t = [] then ''Unknown Job'' else t)))"
proof -
  let ?rows = "map (embed_job s) apps"
  let ?k = "job_id r"
  from jobData_rows [OF r] have "?k \<in> jobId_of ` set ?rows" and t: "job_title r = group_title ?k ?rows"
    by (simp add: set_group_keys, metis job_title_group_row)
  from find_jobId_Some [OF this(1)] obtain b where b: "find (\<lambda>b. jobId_of b = ?k) ?rows = Some b" ..
  then obtain a where a: "find (\<lambda>a. or_else (a_job_id a) ''unknown'' = ?k) apps = Some a"
    and "b = embed_job s a"
    by (auto simp: find_map jobId_of_embed_job)
  with b t have title: "job_title r = jobTitle_of (embed_job s a)"
    by (simp add: group_title_def)
  from a have "or_else (a_job_id a) ''unknown'' = ?k"
    by (auto simp: find_Some_iff)
  then have "job_id r = (case a_job_id a of
                       None \<Rightarrow> ''unknown''
                     | Some k \<Rightarrow> if k = [] then ''unknown'' else k)"
    by (simp add: or_else_def)
  moreover have "job_title r = (case a_job_id a of
                          None \<Rightarrow> ''Unknown Job''
                        | Some k \<Rightarrow>
                            (case find (\<lambda>j. j_id j = k) (jobs s) of
                               None \<Rightarrow> ''Unknown Job''
                             | Some j \<Rightarrow> (case j_title j of
                                           None \<Rightarrow> ''Unknown Job''
                                         | Some t \<Rightarrow> if t = [] then ''Unknown Job'' else t)))"
    by (simp add: title jobTitle_of_def embed_job_def or_else_def split: option.splits)
  ultimately show ?thesis
    using a by blast
qed

lemma jobData_application_row:
  fixes a :: application
  assumes a: "a \<in> set apps" and k: "or_else (a_job_id a) ''unknown'' \<notin> set Object_prototype_names"
  shows "(\<exists>r\<in>set (jobData (map (embed_job s) apps)).
            job_id r = or_else (a_job_id a) ''unknown''
            \<and> count r = length (filter (\<lambda>b. or_else (a_job_id b) ''unknown''
                                             = or_else (a_job_id a) ''unknown'') apps))
        \<or> length (jobData (map (embed_job s) apps)) = 10
          \<and> (\<forall>r\<in>set (jobData (map (embed_job s) apps)).
                length (filter (\<lambda>b. or_else (a_job_id b) ''unknown''
                                      = or_else (a_job_id a) ''unknown'') apps) \<le> count r)"
proof -
  let ?rows = "map (embed_job s) apps"
  let ?key = "\<lambda>b::application. or_else (a_job_id b) ''unknown''"
  let ?k = "?key a"
  have keys: "map jobId_of ?rows = map ?key apps"
    by (simp add: jobId_of_embed_job)
  from a have "?k \<in> set (map ?key apps)"
    by simp
  with k have g: "?k \<in> set (group_keys ?rows)"
    by (simp only: group_keys_def keys set_filter) simp
  have "count_list (group_keys ?rows) ?k = count_list (map ?key apps) ?k"
    by (simp only: count_group_keys [OF k] keys)
  also have "\<dots> = length (filter (\<lambda>b. ?key b = ?k) apps)"
    by (simp add: count_list_eq_length_filter filter_map comp_def eq_commute)
  finally have n: "count_list (group_keys ?rows) ?k = length (filter (\<lambda>b. ?key b = ?k) apps)" .
  from jobData_group [OF g] show ?thesis
  proof
    assume "group_row ?rows ?k \<in> set (jobData ?rows)"
    moreover have "job_id (group_row ?rows ?k) = ?k"
      and "count (group_row ?rows ?k) = length (filter (\<lambda>b. ?key b = ?k) apps)"
      by (simp_all only: job_id_group_row count_group_row n)
    ultimately show ?thesis
      by blast
  next
    assume "length (jobData ?rows) = 10
       \<and> (\<forall>r\<in>set (jobData ?rows). count_list (group_keys ?rows) ?k \<le> count r)"
    then show ?thesis
      by (simp only: n) simp
  qed
qed

lemma jobData_dangling:
  fixes a :: application
  assumes a: "a \<in> set apps" and id: "a_job_id a = Some k" and k: "k \<noteq> []" "k \<noteq> ''unknown''"
    and p: "k \<notin> set Object_prototype_names"
    and none: "find (\<lambda>j. j_id j = k) (jobs s) = None"
  shows "(\<exists>r\<in>set (jobData (map (embed_job s) apps)).
            job_id r = k \<and> job_title r = ''Unknown Job''
            \<and> count r = length (filter (\<lambda>b. a_job_id b = Some k) apps))
        \<or> length (jobData (map (embed_job s) apps)) = 10
          \<and> (\<forall>r\<in>set (jobData (map (embed_job s) apps)).
                length (filter (\<lambda>b. a_job_id b = Some k) apps) \<le> count r)"
proof -
  let ?D = "jobData (map (embed_job s) apps)"
  have key: "or_else (a_job_id a) ''unknown'' = k"
    using id k(1) by (simp add: or_else_def)
  have same: "(or_else (a_job_id b) ''unknown'' = k) = (a_job_id b = Some k)" for b :: application
    using k by (rule or_else_eq_iff)
  from p have "or_else (a_job_id a) ''unknown'' \<notin> set Object_prototype_names"
    by (simp add: key)
  from jobData_application_row [OF a this, of s]
  have row: "(\<exists>r\<in>set ?D. job_id r = k \<and> count r = length (filter (\<lambda>b. a_job_id b = Some k) apps))
        \<or> length ?D = 10 \<and> (\<forall>r\<in>set ?D. length (filter (\<lambda>b. a_job_id b = Some k) apps) \<le> count r)"
    by (simp only: key same)
  have "job_title r = ''Unknown Job''" if r: "r \<in> set ?D" and "job_id r = k" for r
  proof -
    from jobData_first_application [OF r] that(2)
    obtain a' where "find (\<lambda>a. or_else (a_job_id a) ''unknown'' = k) apps = Some a'"
      and t: "job_title r = (case a_job_id a' of
                           None \<Rightarrow> ''Unknown Job''
                         | Some k \<Rightarrow>
                             (case find (\<lambda>j. j_id j = k) (jobs s) of
                                None \<Rightarrow> ''Unknown Job''
                              | Some j \<Rightarrow> (case j_title j of
                                            None \<Rightarrow> ''Unknown Job''
                                          | Some t \<Rightarrow> if t = [] then ''Unknown Job'' else t)))"
      by auto
    then have "or_else (a_job_id a') ''unknown'' = k"
      by (auto simp: find_Some_iff)
    then have "a_job_id a' = Some k"
      by (simp only: same)
    with t none show ?thesis
      by simp
  qed
  with row show ?thesis
    by blast
qed


lemma jobData_example_store:
  "jobData (map (embed_job example_store) (applications example_store)) =
     [Job ''job-a'' ''Analyst'' 2, Job ''job-c'' ''Clerk'' 1, Job ''unknown'' ''Unknown Job'' 1,
      Job ''job-b'' ''Unknown Job'' 1, Job ''job-z'' ''Unknown Job'' 1]"
proof -
  let ?rows = "map (embed_job example_store) (applications example_store)"
  have rows: "?rows =
      [\<lparr>ja_job_id = Some ''job-a'', ja_jobs = Some (Some ''Analyst'')\<rparr>,
       \<lparr>ja_job_id = Some ''job-c'', ja_jobs = Some (Some ''Clerk'')\<rparr>,
       \<lparr>ja_job_id = Some ''job-a'', ja_jobs = Some (Some ''Analyst'')\<rparr>,
       \<lparr>ja_job_id = None, ja_jobs = None\<rparr>,
       \<lparr>ja_job_id = Some ''job-b'', ja_jobs = Some None\<rparr>,
       \<lparr>ja_job_id = Some ''job-z'', ja_jobs = None\<rparr>]"
    by (simp add: example_store_def embed_job_def)
  have gk: "group_keys ?rows = [''job-a'', ''job-c'', ''job-a'', ''unknown'', ''job-b'', ''job-z'']"
    by (simp only: rows) (simp add: group_keys_def row_eval Object_prototype_names_def)
  have ko: "key_order [''job-a'', ''job-c'', ''unknown'', ''job-b'', ''job-z'']
              = [''job-a'', ''job-c'', ''unknown'', ''job-b'', ''job-z'']"
    by (rule key_order_no_index) (simp add: is_array_index_def is_digit_def)
  have "ranking ?rows = [''job-a'', ''job-c'', ''unknown'', ''job-b'', ''job-z'']"
    by (simp add: ranking_def gk ko)
  then show ?thesis
    by (simp add: jobData_ranking group_row_def gk) (simp add: group_title_def rows row_eval)
qed


subsection \<open>The stages of the handler\<close>

lemma after_simps [simp]: "fst (after c res) = fst res" "snd (after c res) = c # snd res"
  by (simp_all add: after_def)

lemma after_pair: "after c (r, cs) = (r, c # cs)"
  by (simp add: after_def)

lemma select_job_ids_eq: "select_job_ids s uid = run_query s Jobs (own_job_ids s uid)"
  by (simp add: select_job_ids_def own_job_ids_def)

lemma run_query_ok: "fault s t = None \<Longrightarrow> run_query s t rows = Returns \<lparr>data = Some rows, error = None\<rparr>"
  and run_query_Fail: "fault s t = Some (Fail e) \<Longrightarrow> run_query s t rows = Returns \<lparr>data = None, error = Some e\<rparr>"
  and run_query_Throw: "fault s t = Some (Throw x) \<Longrightarrow> run_query s t rows = Throws x"
  by (simp_all add: run_query_def)

lemma GET_signed_in:
  assumes "createClient s = None" and "getUser s = Returns a" and "authError a = None"
    and "user a = Some uid"
  shows "GET newDate req s = after Call_getUser (authorized newDate req s uid)"
  using assms by (simp add: GET_def)

lemma authorized_role:
  assumes "select_role s uid = Returns \<lparr>data = Some role, error = None\<rparr>"
    and "role = ''HR'' \<or> role = ''ADMIN''"
  shows "authorized newDate req s uid =
     after (Call_from Profiles)
       (if \<not> truthy (type_param req)
        then (Resolves (json (Failure ''Missing required parameter: type'' None) 400), [])
        else scoped newDate s uid (or_else (type_param req) []) (role = ''ADMIN''))"
  using assms by (auto simp: authorized_def)

lemma scoped_hr:
  assumes "fault s Jobs = None"
  shows "scoped newDate s uid t False =
     after (Call_from Jobs)
       (if own_job_ids s uid = [] then (Resolves (json (Success []) 200), [])
        else charts newDate s t False (own_job_ids s uid))"
  using assms by (simp add: scoped_def select_job_ids_eq run_query_ok Let_def)

lemma scoped_admin: "scoped newDate s uid t True = charts newDate s t True []"
  by (simp add: scoped_def)

lemma select_role_Fail:
  "fault s Profiles = Some (Fail e) \<Longrightarrow> select_role s uid = Returns \<lparr>data = None, error = Some e\<rparr>"
  and select_role_Throw: "fault s Profiles = Some (Throw x) \<Longrightarrow> select_role s uid = Throws x"
  by (simp_all add: select_role_def run_query_def split: list.splits)

lemma select_created_at_eq:
  "select_created_at s scope = run_query s Applications
     (map a_created_at (sort_key (\<lambda>a. - a_created_at a) (filter (in_job_ids scope) (applications s))))"
  by (simp add: select_created_at_def)

lemma select_with_job_eq:
  "select_with_job s scope = run_query s Applications
     (map (embed_job s) (filter (in_job_ids scope) (applications s)))"
  by (simp add: select_with_job_def)

lemma run_query_cases:
  obtains "fault s t = None" "run_query s t rows = Returns \<lparr>data = Some rows, error = None\<rparr>"
  | e where "fault s t = Some (Fail e)" "run_query s t rows = Returns \<lparr>data = None, error = Some e\<rparr>"
  | x where "fault s t = Some (Throw x)" "run_query s t rows = Throws x"
  by (cases "fault s t"; simp add: run_query_def; cases "the (fault s t)"; simp)


lemma charts_result:
  "charts newDate s t isAdmin jobIds =
     (if t = ''monthly'' \<or> t = ''by-job'' then
        (case fault s Applications of
           None \<Rightarrow>
             (Resolves (json (Success
                (if t = ''monthly''
                 then monthlyData newDate
                        (map a_created_at (sort_key (\<lambda>a. - a_created_at a)
                           (filter (in_job_ids (if \<not> isAdmin \<and> length jobIds > 0 then Some jobIds else None))
                              (applications s))))
                 else jobData
                        (map (embed_job s)
                           (filter (in_job_ids (if \<not> isAdmin \<and> length jobIds > 0 then Some jobIds else None))
                              (applications s))))) 200),
              [Call_from Applications])
         | Some (Fail e) \<Rightarrow>
             (Resolves (store_failure e
                (if t = ''monthly'' then ''Failed to fetch applications'' else ''Failed to fetch job data'')),
              [Call_from Applications])
         | Some (Throw x) \<Rightarrow> (caught x, [Call_from Applications]))
      else (Resolves (json (Failure (''Invalid chart type: '' @ t @ ''. Supported types: monthly, by-job'')
                              None) 400),
            []))"
  by (simp add: charts_def chart_monthly_def chart_by_job_def select_created_at_def
        select_with_job_def run_query_def after_def split: option.splits fault.splits)

lemma scoped_result:
  "scoped newDate s uid t isAdmin =
     (if isAdmin then charts newDate s t True []
      else
        (case fault s Jobs of
           None \<Rightarrow>
             (if own_job_ids s uid = [] then (Resolves (json (Success []) 200), [Call_from Jobs])
              else after (Call_from Jobs) (charts newDate s t False (own_job_ids s uid)))
         | Some (Fail e) \<Rightarrow> (Resolves (store_failure e ''Failed to fetch jobs''), [Call_from Jobs])
         | Some (Throw x) \<Rightarrow> (caught x, [Call_from Jobs])))"
  by (simp add: scoped_def select_job_ids_eq run_query_def after_def Let_def
        split: option.splits fault.splits)


lemma charts_calls: "c \<in> set (snd (charts newDate s t isAdmin jobIds)) \<Longrightarrow> c = Call_from Applications"
  by (auto simp: charts_result split: option.splits fault.splits if_splits)

lemma scoped_calls:
  "c \<in> set (snd (scoped newDate s uid t isAdmin)) \<Longrightarrow> c = Call_from Jobs \<or> c = Call_from Applications"
  by (auto simp: scoped_result after_def dest: charts_calls split: option.splits fault.splits if_splits)

lemma lift_authorized:
  assumes "\<And>t isAdmin. c \<in> set (snd (scoped newDate s uid t isAdmin)) \<Longrightarrow>
             fst (scoped newDate s uid t isAdmin) = R t"
    and "c \<noteq> Call_from Profiles"
    and "c \<in> set (snd (authorized newDate req s uid))"
  shows "fst (authorized newDate req s uid) = R (or_else (type_param req) [])"
  using assms(2,3)
  by (auto simp: authorized_def after_def intro: assms(1)
        split: outcome.splits option.splits if_splits)

lemma lift_GET:
  assumes "\<And>uid. c \<in> set (snd (authorized newDate req s uid)) \<Longrightarrow>
             fst (authorized newDate req s uid) = R"
    and "c \<noteq> Call_getUser"
    and "c \<in> set (snd (GET newDate req s))"
  shows "fst (GET newDate req s) = R"
  using assms(2,3)
  by (auto simp: GET_def after_def intro: assms(1) split: outcome.splits option.splits)

lemma scoped_jobs_Fail:
  assumes "fault s Jobs = Some (Fail e)" and "Call_from Jobs \<in> set (snd (scoped newDate s uid t isAdmin))"
  shows "fst (scoped newDate s uid t isAdmin) = Resolves (store_failure e ''Failed to fetch jobs'')"
  using assms by (auto simp: scoped_result dest: charts_calls split: if_splits)

lemma scoped_jobs_Throw:
  assumes "fault s Jobs = Some (Throw x)" and "Call_from Jobs \<in> set (snd (scoped newDate s uid t isAdmin))"
  shows "fst (scoped newDate s uid t isAdmin) = caught x"
  using assms by (auto simp: scoped_result dest: charts_calls split: if_splits)

lemma scoped_applications_Fail:
  assumes "fault s Applications = Some (Fail e)"
    and "Call_from Applications \<in> set (snd (scoped newDate s uid t isAdmin))"
  shows "fst (scoped newDate s uid t isAdmin)
           = Resolves (store_failure e (if t = ''monthly'' then ''Failed to fetch applications''
                                        else ''Failed to fetch job data''))"
  using assms
  by (auto simp: scoped_result charts_result after_def split: if_splits option.splits fault.splits)

lemma scoped_applications_Throw:
  assumes "fault s Applications = Some (Throw x)"
    and "Call_from Applications \<in> set (snd (scoped newDate s uid t isAdmin))"
  shows "fst (scoped newDate s uid t isAdmin) = caught x"
  using assms
  by (auto simp: scoped_result charts_result after_def split: if_splits option.splits fault.splits)

lemma authorized_profiles_Fail:
  assumes "fault s Profiles = Some (Fail e)"
  shows "authorized newDate req s uid
           = (Resolves (json (Failure ''Profile not found'' None) 404), [Call_from Profiles])"
  by (simp add: authorized_def select_role_Fail [OF assms] after_def)

lemma authorized_profiles_Throw:
  assumes "fault s Profiles = Some (Throw x)"
  shows "authorized newDate req s uid = (caught x, [Call_from Profiles])"
  by (simp add: authorized_def select_role_Throw [OF assms] after_def)

lemma reply_ok_simps [simp]:
  "reply_ok (Resolves (json (Success rows) 200))" "reply_ok (caught x)"
  "reply_ok (Resolves (store_failure e g))"
  "reply_ok (Resolves (json (Failure m c) 400))" "reply_ok (Resolves (json (Failure m c) 401))"
  "reply_ok (Resolves (json (Failure m c) 403))" "reply_ok (Resolves (json (Failure m c) 404))"
  by (simp_all add: reply_ok_def envelope_ok_def json_def caught_def store_failure_def
        split: thrown.splits)

lemma reply_ok_charts: "reply_ok (fst (charts newDate s t isAdmin jobIds))"
  by (simp add: charts_result split: option.splits fault.splits)

lemma reply_ok_scoped: "reply_ok (fst (scoped newDate s uid t isAdmin))"
  by (simp add: scoped_result reply_ok_charts split: option.splits fault.splits)

lemma reply_ok_authorized: "reply_ok (fst (authorized newDate req s uid))"
  by (simp add: authorized_def reply_ok_scoped split: outcome.splits option.splits)

lemma reply_ok_GET: "reply_ok (fst (GET newDate req s))"
  by (simp add: GET_def reply_ok_authorized split: outcome.splits option.splits)


lemmas handler_eval = GET_def authorized_def scoped_result charts_result after_def json_def
  caught_def store_failure_def truthy_def or_else_def

lemmas store_eval = example_store_def signed_in_def failing_def select_role_def run_query_def
  own_job_ids_def boom_def timeout_error_def

subsection \<open>Requests that are refused\<close>

text \<open>
  Claim C8. When \<^verbatim>\<open>auth.getUser()\<close> resolves with an error or without a user, the
  response is 401 with \<^verbatim>\<open>success: false\<close> and the message \<^verbatim>\<open>Unauthorized\<close>, whatever
  the \<^verbatim>\<open>type\<close> parameter is, and the call of \<^verbatim>\<open>getUser\<close> is the only call made: no
  table is queried.
\<close>

theorem no_session_401:
  assumes "createClient s = None" and "getUser s = Returns a"
    and "authError a \<noteq> None \<or> user a = None"
  shows "GET newDate req s = (Resolves \<lparr>status = 401, body = Failure ''Unauthorized'' None\<rparr>, [Call_getUser])"
  using assms by (auto simp: GET_def json_def after_def split: option.splits)

text \<open>
  The theorem at a session without a user, with a valid \<^verbatim>\<open>type\<close>, and at a session
  with an error, without \<^verbatim>\<open>type\<close>.
\<close>

theorem no_session_401_witness:
  "GET month_clock \<lparr>type_param = Some ''monthly''\<rparr>
     (example_store\<lparr>getUser := Returns \<lparr>user = None, authError = None\<rparr>\<rparr>)
     = (Resolves \<lparr>status = 401, body = Failure ''Unauthorized'' None\<rparr>, [Call_getUser])
   \<and> GET month_clock \<lparr>type_param = None\<rparr>
     (example_store\<lparr>getUser := Returns \<lparr>user = Some ''hr-1'', authError = Some not_single\<rparr>\<rparr>)
     = (Resolves \<lparr>status = 401, body = Failure ''Unauthorized'' None\<rparr>, [Call_getUser])"
  using
    no_session_401 [of "example_store\<lparr>getUser := Returns \<lparr>user = None, authError = None\<rparr>\<rparr>"
      "\<lparr>user = None, authError = None\<rparr>" month_clock "\<lparr>type_param = Some ''monthly''\<rparr>"]
    no_session_401 [of "example_store\<lparr>getUser := Returns \<lparr>user = Some ''hr-1'', authError = Some not_single\<rparr>\<rparr>"
      "\<lparr>user = Some ''hr-1'', authError = Some not_single\<rparr>" month_clock "\<lparr>type_param = None\<rparr>"]
  by (simp add: example_store_def)

text \<open>
  Claim C2, as amended. For an authenticated caller whose profile has the role
  \<^verbatim>\<open>HR\<close> or \<^verbatim>\<open>ADMIN\<close>: when the \<^verbatim>\<open>type\<close> parameter is absent or empty, the response
  is 400 with \<^verbatim>\<open>success: false\<close> and the message \<^verbatim>\<open>Missing required parameter: type\<close>;
  when it is a non-empty string other than \<^verbatim>\<open>monthly\<close> and \<^verbatim>\<open>by-job\<close>, and the caller
  is an \<^verbatim>\<open>ADMIN\<close>, or an \<^verbatim>\<open>HR\<close> caller whose jobs query succeeds with at least one job,
  the response is 400 with \<^verbatim>\<open>success: false\<close> and a message that names the value and
  the supported types.
\<close>

theorem invalid_type_400:
  assumes "createClient s = None" and "getUser s = Returns a" and "authError a = None"
    and "user a = Some uid"
    and "select_role s uid = Returns \<lparr>data = Some role, error = None\<rparr>"
    and "role = ''HR'' \<or> role = ''ADMIN''"
  shows "(\<not> truthy (type_param req) \<longrightarrow>
            fst (GET newDate req s)
              = Resolves \<lparr>status = 400, body = Failure ''Missing required parameter: type'' None\<rparr>)
       \<and> (\<forall>t. type_param req = Some t \<and> t \<noteq> [] \<and> t \<noteq> ''monthly'' \<and> t \<noteq> ''by-job''
              \<and> (role = ''ADMIN'' \<or> fault s Jobs = None \<and> own_job_ids s uid \<noteq> []) \<longrightarrow>
            fst (GET newDate req s)
              = Resolves \<lparr>status = 400,
                 body = Failure (''Invalid chart type: '' @ t @ ''. Supported types: monthly, by-job'')
                          None\<rparr>)"
proof (intro conjI allI impI)
  assume "\<not> truthy (type_param req)"
  with assms show "fst (GET newDate req s)
              = Resolves \<lparr>status = 400, body = Failure ''Missing required parameter: type'' None\<rparr>"
    by (simp add: GET_signed_in authorized_role json_def)
next
  fix t
  assume t: "type_param req = Some t \<and> t \<noteq> [] \<and> t \<noteq> ''monthly'' \<and> t \<noteq> ''by-job''
              \<and> (role = ''ADMIN'' \<or> fault s Jobs = None \<and> own_job_ids s uid \<noteq> [])"
  then have ty: "truthy (type_param req)" "or_else (type_param req) [] = t"
    by (auto simp: truthy_def or_else_def)
  have invalid: "fst (charts newDate s t adm ids)
      = Resolves \<lparr>status = 400,
         body = Failure (''Invalid chart type: '' @ t @ ''. Supported types: monthly, by-job'') None\<rparr>"
    for adm ids
    using t by (simp add: charts_def json_def)
  show "fst (GET newDate req s)
              = Resolves \<lparr>status = 400,
                 body = Failure (''Invalid chart type: '' @ t @ ''. Supported types: monthly, by-job'')
                          None\<rparr>"
  proof (cases "role = ''ADMIN''")
    case True
    with assms ty show ?thesis
      by (simp add: GET_signed_in authorized_role scoped_admin invalid)
  next
    case False
    with t have "fault s Jobs = None" "own_job_ids s uid \<noteq> []"
      by auto
    with assms ty False show ?thesis
      by (simp add: GET_signed_in authorized_role scoped_hr invalid)
  qed
qed

text \<open>
  The theorem at an \<^verbatim>\<open>ADMIN\<close> caller without \<^verbatim>\<open>type\<close> and with the type \<^verbatim>\<open>pie\<close>,
  and at the \<^verbatim>\<open>HR\<close> caller who owns two jobs, with the type \<^verbatim>\<open>pie\<close>.
\<close>

theorem invalid_type_400_witness:
  "fst (GET month_clock \<lparr>type_param = None\<rparr> (signed_in ''admin'' example_store))
     = Resolves \<lparr>status = 400, body = Failure ''Missing required parameter: type'' None\<rparr>
   \<and> fst (GET month_clock \<lparr>type_param = Some ''pie''\<rparr> (signed_in ''admin'' example_store))
     = Resolves \<lparr>status = 400,
        body = Failure ''Invalid chart type: pie. Supported types: monthly, by-job'' None\<rparr>
   \<and> fst (GET month_clock \<lparr>type_param = Some ''pie''\<rparr> example_store)
     = Resolves \<lparr>status = 400,
        body = Failure ''Invalid chart type: pie. Supported types: monthly, by-job'' None\<rparr>"
proof -
  let ?s = "signed_in ''admin'' example_store"
  have a: "createClient ?s = None" "getUser ?s = Returns \<lparr>user = Some ''admin'', authError = None\<rparr>"
    "select_role ?s ''admin'' = Returns \<lparr>data = Some ''ADMIN'', error = None\<rparr>"
    by (simp_all add: store_eval)
  have h: "createClient example_store = None"
    "getUser example_store = Returns \<lparr>user = Some ''hr-1'', authError = None\<rparr>"
    "select_role example_store ''hr-1'' = Returns \<lparr>data = Some ''HR'', error = None\<rparr>"
    "fault example_store Jobs = None" "own_job_ids example_store ''hr-1'' \<noteq> []"
    by (simp_all add: store_eval)
  from invalid_type_400 [OF a(1,2) _ _ a(3), where newDate = month_clock
      and req = "\<lparr>type_param = None\<rparr>"]
    invalid_type_400 [OF a(1,2) _ _ a(3), where newDate = month_clock
      and req = "\<lparr>type_param = Some ''pie''\<rparr>"]
    invalid_type_400 [OF h(1,2) _ _ h(3), where newDate = month_clock
      and req = "\<lparr>type_param = Some ''pie''\<rparr>"] h(4,5)
  show ?thesis
    by (simp add: truthy_def)
qed

text \<open>
  Claim C2 as stated fails at two places. Without a \<^verbatim>\<open>type\<close> parameter the message
  names neither a value nor the supported types. And for the \<^verbatim>\<open>HR\<close> caller who owns
  no job the type \<^verbatim>\<open>pie\<close> is not refused: the empty result is returned, with status
  200, before the type is looked at.
\<close>

theorem invalid_type_not_always_400:
  "fst (GET month_clock \<lparr>type_param = None\<rparr> (signed_in ''admin'' example_store))
     = Resolves \<lparr>status = 400, body = Failure ''Missing required parameter: type'' None\<rparr>
   \<and> fst (GET month_clock \<lparr>type_param = Some ''pie''\<rparr> (signed_in ''hr-2'' example_store))
     = Resolves \<lparr>status = 200, body = Success []\<rparr>"
  by (simp add: GET_def authorized_def scoped_def select_job_ids_def after_def json_def
        truthy_def or_else_def store_eval)

subsection \<open>The caller without jobs\<close>

text \<open>
  Claim C3. For an authenticated \<^verbatim>\<open>HR\<close> caller, when the jobs query succeeds and no
  job has the caller as \<^verbatim>\<open>created_by\<close>, the response is 200 with
  \<^verbatim>\<open>{ success: true, data: [] }\<close>, for every non-empty \<^verbatim>\<open>type\<close> parameter and so for
  both chart types; the calls made are \<^verbatim>\<open>getUser\<close>, the profile query and the jobs
  query, and the applications are not queried.
\<close>

theorem hr_without_jobs:
  assumes "createClient s = None" and "getUser s = Returns a" and "authError a = None"
    and "user a = Some uid"
    and "select_role s uid = Returns \<lparr>data = Some ''HR'', error = None\<rparr>"
    and "fault s Jobs = None"
    and "\<forall>j\<in>set (jobs s). j_created_by j \<noteq> uid"
    and "type_param req = Some t" and "t \<noteq> []"
  shows "GET newDate req s =
           (Resolves \<lparr>status = 200, body = Success []\<rparr>, [Call_getUser, Call_from Profiles, Call_from Jobs])
         \<and> Call_from Applications \<notin> set (snd (GET newDate req s))"
proof -
  from assms(7) have "own_job_ids s uid = []"
    by (simp add: own_job_ids_def filter_empty_conv)
  moreover from assms(8,9) have "truthy (type_param req)" "or_else (type_param req) [] = t"
    by (auto simp: truthy_def or_else_def)
  ultimately have "GET newDate req s =
           (Resolves \<lparr>status = 200, body = Success []\<rparr>, [Call_getUser, Call_from Profiles, Call_from Jobs])"
    using assms(1-6)
    by (simp add: GET_signed_in authorized_role scoped_hr after_pair json_def)
  then show ?thesis
    by simp
qed


text \<open>
  The theorem at the caller \<^verbatim>\<open>hr-2\<close> of the example store, for both chart types.
\<close>

theorem hr_without_jobs_witness:
  "GET month_clock \<lparr>type_param = Some ''monthly''\<rparr> (signed_in ''hr-2'' example_store)
     = (Resolves \<lparr>status = 200, body = Success []\<rparr>, [Call_getUser, Call_from Profiles, Call_from Jobs])
   \<and> GET month_clock \<lparr>type_param = Some ''by-job''\<rparr> (signed_in ''hr-2'' example_store)
     = (Resolves \<lparr>status = 200, body = Success []\<rparr>, [Call_getUser, Call_from Profiles, Call_from Jobs])
   \<and> Call_from Applications
       \<notin> set (snd (GET month_clock \<lparr>type_param = Some ''by-job''\<rparr> (signed_in ''hr-2'' example_store)))"
proof -
  let ?s = "signed_in ''hr-2'' example_store"
  have h: "createClient ?s = None" "getUser ?s = Returns \<lparr>user = Some ''hr-2'', authError = None\<rparr>"
    "select_role ?s ''hr-2'' = Returns \<lparr>data = Some ''HR'', error = None\<rparr>"
    "fault ?s Jobs = None" "\<forall>j\<in>set (jobs ?s). j_created_by j \<noteq> ''hr-2''"
    by (simp_all add: store_eval)
  from hr_without_jobs [OF h(1,2) _ _ h(3,4,5), where newDate = month_clock
      and req = "\<lparr>type_param = Some ''monthly''\<rparr>" and t = "''monthly''"]
    hr_without_jobs [OF h(1,2) _ _ h(3,4,5), where newDate = month_clock
      and req = "\<lparr>type_param = Some ''by-job''\<rparr>" and t = "''by-job''"]
  show ?thesis
    by simp
qed

subsection \<open>Failures of the store\<close>

lemma caught_Thrown:
  "caught (Thrown m) = Resolves \<lparr>status = 500, body = Failure (or_else m ''Internal server error'') None\<rparr>"
  by (simp add: caught_def json_def)

lemma caught_Rejects: "(caught x = Rejects) = (x = Nullish)"
  by (cases x) (simp_all add: caught_def)

lemma charts_Rejects:
  assumes "fst (charts newDate s t isAdmin jobIds) = Rejects"
  shows "Call_from Applications \<in> set (snd (charts newDate s t isAdmin jobIds))
     \<and> fault s Applications = Some (Throw Nullish)"
  using assms
  by (auto simp: charts_result caught_Rejects split: option.splits fault.splits if_splits)

lemma scoped_Rejects:
  assumes "fst (scoped newDate s uid t isAdmin) = Rejects"
  shows "\<exists>c. Call_from c \<in> set (snd (scoped newDate s uid t isAdmin))
           \<and> fault s c = Some (Throw Nullish)"
proof (cases "isAdmin \<or> fault s Jobs = None \<and> own_job_ids s uid \<noteq> []")
  case True
  with assms have "fst (charts newDate s t isAdmin (if isAdmin then [] else own_job_ids s uid)) = Rejects"
    by (auto simp: scoped_result split: if_splits)
  from charts_Rejects [OF this] True show ?thesis
    by (auto simp: scoped_result after_def)
next
  case False
  with assms have "fault s Jobs = Some (Throw Nullish)"
    and "snd (scoped newDate s uid t isAdmin) = [Call_from Jobs]"
    by (auto simp: scoped_result caught_Rejects split: option.splits fault.splits if_splits)
  then show ?thesis
    by auto
qed

lemma select_role_Throws:
  "select_role s uid = Throws x \<Longrightarrow> fault s Profiles = Some (Throw x)"
  by (auto simp: select_role_def run_query_def split: list.splits option.splits fault.splits)

lemma authorized_Rejects:
  assumes "fst (authorized newDate req s uid) = Rejects"
  shows "\<exists>c. Call_from c \<in> set (snd (authorized newDate req s uid))
           \<and> fault s c = Some (Throw Nullish)"
proof (cases "select_role s uid")
  case (Throws x)
  with assms have "x = Nullish"
    by (simp add: authorized_def caught_Rejects)
  with Throws have "fault s Profiles = Some (Throw Nullish)"
    by (auto dest: select_role_Throws)
  then show ?thesis
    by (auto simp: authorized_def)
next
  case (Returns r)
  with assms obtain t isAdmin where "fst (scoped newDate s uid t isAdmin) = Rejects"
    and "authorized newDate req s uid = after (Call_from Profiles) (scoped newDate s uid t isAdmin)"
    by (auto simp: authorized_def split: option.splits if_splits)
  with scoped_Rejects [of newDate s uid t isAdmin] show ?thesis
    by auto
qed

lemma GET_Rejects:
  assumes "fst (GET newDate req s) = Rejects"
  shows "createClient s = Some Nullish \<or> createClient s = None \<and> getUser s = Throws Nullish
     \<or> (\<exists>c. Call_from c \<in> set (snd (GET newDate req s)) \<and> fault s c = Some (Throw Nullish))"
proof (cases "\<exists>a uid. createClient s = None \<and> getUser s = Returns a \<and> authError a = None
                \<and> user a = Some uid")
  case True
  then obtain a uid where h: "createClient s = None" "getUser s = Returns a" "authError a = None"
    "user a = Some uid"
    by blast
  note eq = GET_signed_in [OF h, of newDate req]
  from assms have "fst (authorized newDate req s uid) = Rejects"
    by (simp add: eq)
  from authorized_Rejects [OF this] show ?thesis
    by (auto simp: eq)
next
  case False
  with assms show ?thesis
    by (auto simp: GET_def caught_Rejects split: option.splits outcome.splits)
qed

text \<open>
  Claim C9, as amended. When the jobs query or the applications query is made and
  reports an error, the response is 500 with \<^verbatim>\<open>success: false\<close>, the message of the
  error, or its details, or a generic message, and the code of the error or
  \<^verbatim>\<open>UNKNOWN_ERROR\<close>. An error reported by the profile query is answered with 404 and
  \<^verbatim>\<open>Profile not found\<close>. When a call that is made throws a value other than
  \<^verbatim>\<open>undefined\<close> and \<^verbatim>\<open>null\<close>, or \<^verbatim>\<open>createClient()\<close> or \<^verbatim>\<open>getUser()\<close> does, the
  response is 500 with \<^verbatim>\<open>success: false\<close> and the message of what was thrown, or
  \<^verbatim>\<open>Internal server error\<close>. When no call that is made throws \<^verbatim>\<open>undefined\<close> or
  \<^verbatim>\<open>null\<close>, the request is answered with a response. In every response the status is
  one of 200, 400, 401, 403, 404 and 500, and \<^verbatim>\<open>success\<close> is true exactly at status
  200.
\<close>

theorem store_failures_reported:
  "(\<forall>e. Call_from Jobs \<in> set (snd (GET newDate req s)) \<and> fault s Jobs = Some (Fail e) \<longrightarrow>
       fst (GET newDate req s)
         = Resolves \<lparr>status = 500,
            body = Failure (or_else (message e) (or_else (details e) ''Failed to fetch jobs''))
                     (Some (or_else (code e) ''UNKNOWN_ERROR''))\<rparr>)
   \<and> (\<forall>e. Call_from Applications \<in> set (snd (GET newDate req s))
          \<and> fault s Applications = Some (Fail e) \<longrightarrow>
       fst (GET newDate req s)
         = Resolves \<lparr>status = 500,
            body = Failure
                     (or_else (message e)
                        (or_else (details e)
                           (if type_param req = Some ''monthly'' then ''Failed to fetch applications''
                            else ''Failed to fetch job data'')))
                     (Some (or_else (code e) ''UNKNOWN_ERROR''))\<rparr>)
   \<and> (\<forall>e. Call_from Profiles \<in> set (snd (GET newDate req s)) \<and> fault s Profiles = Some (Fail e) \<longrightarrow>
       fst (GET newDate req s)
         = Resolves \<lparr>status = 404, body = Failure ''Profile not found'' None\<rparr>)
   \<and> (\<forall>m t. Call_from t \<in> set (snd (GET newDate req s)) \<and> fault s t = Some (Throw (Thrown m)) \<longrightarrow>
       fst (GET newDate req s)
         = Resolves \<lparr>status = 500,
            body = Failure (or_else m ''Internal server error'') None\<rparr>)
   \<and> (\<forall>m. createClient s = Some (Thrown m)
          \<or> createClient s = None \<and> getUser s = Throws (Thrown m) \<longrightarrow>
       fst (GET newDate req s)
         = Resolves \<lparr>status = 500,
            body = Failure (or_else m ''Internal server error'') None\<rparr>)
   \<and> (createClient s \<noteq> Some Nullish \<and> getUser s \<noteq> Throws Nullish
        \<and> (\<forall>t. Call_from t \<in> set (snd (GET newDate req s)) \<longrightarrow>
               fault s t \<noteq> Some (Throw Nullish)) \<longrightarrow>
       (\<exists>r. fst (GET newDate req s) = Resolves r))
   \<and> (\<forall>r. fst (GET newDate req s) = Resolves r \<longrightarrow>
       status r \<in> {200, 400, 401, 403, 404, 500} \<and> success r = (status r = 200))"
proof (intro conjI allI impI)
  fix e
  assume "Call_from Jobs \<in> set (snd (GET newDate req s)) \<and> fault s Jobs = Some (Fail e)"
  then have "fst (GET newDate req s) = Resolves (store_failure e ''Failed to fetch jobs'')"
    by (intro lift_GET [where c = "Call_from Jobs"]
          lift_authorized [where c = "Call_from Jobs"
            and R = "\<lambda>t. Resolves (store_failure e ''Failed to fetch jobs'')"]
          scoped_jobs_Fail) simp_all
  then show "fst (GET newDate req s)
         = Resolves \<lparr>status = 500,
            body = Failure (or_else (message e) (or_else (details e) ''Failed to fetch jobs''))
                     (Some (or_else (code e) ''UNKNOWN_ERROR''))\<rparr>"
    by (simp add: store_failure_def json_def)
next
  fix e
  assume a: "Call_from Applications \<in> set (snd (GET newDate req s))
          \<and> fault s Applications = Some (Fail e)"
  let ?g = "\<lambda>t. if t = ''monthly'' then ''Failed to fetch applications'' else ''Failed to fetch job data''"
  from a have "fst (GET newDate req s) = Resolves (store_failure e (?g (or_else (type_param req) [])))"
    by (intro lift_GET [where c = "Call_from Applications"]
          lift_authorized [where c = "Call_from Applications"
            and R = "\<lambda>t. Resolves (store_failure e (?g t))"]
          scoped_applications_Fail) simp_all
  moreover have "(or_else (type_param req) [] = ''monthly'') = (type_param req = Some ''monthly'')"
    by (auto simp: or_else_def split: option.splits)
  ultimately show "fst (GET newDate req s)
         = Resolves \<lparr>status = 500,
            body = Failure
                     (or_else (message e)
                        (or_else (details e)
                           (if type_param req = Some ''monthly'' then ''Failed to fetch applications''
                            else ''Failed to fetch job data'')))
                     (Some (or_else (code e) ''UNKNOWN_ERROR''))\<rparr>"
    by (simp add: store_failure_def json_def)
next
  fix e
  assume a: "Call_from Profiles \<in> set (snd (GET newDate req s)) \<and> fault s Profiles = Some (Fail e)"
  then have "fst (GET newDate req s) = Resolves (json (Failure ''Profile not found'' None) 404)"
    by (intro lift_GET [where c = "Call_from Profiles"]) (simp_all add: authorized_profiles_Fail)
  then show "fst (GET newDate req s)
         = Resolves \<lparr>status = 404, body = Failure ''Profile not found'' None\<rparr>"
    by (simp add: json_def)
next
  fix m t
  let ?x = "Thrown m"
  assume a: "Call_from t \<in> set (snd (GET newDate req s)) \<and> fault s t = Some (Throw ?x)"
  have "fst (GET newDate req s) = caught ?x"
  proof (cases t)
    case Profiles
    with a show ?thesis
      by (intro lift_GET [where c = "Call_from Profiles"]) (simp_all add: authorized_profiles_Throw)
  next
    case Jobs
    with a show ?thesis
      by (intro lift_GET [where c = "Call_from Jobs"]
            lift_authorized [where c = "Call_from Jobs" and R = "\<lambda>t. caught ?x"]
            scoped_jobs_Throw) simp_all
  next
    case Applications
    with a show ?thesis
      by (intro lift_GET [where c = "Call_from Applications"]
            lift_authorized [where c = "Call_from Applications" and R = "\<lambda>t. caught ?x"]
            scoped_applications_Throw) simp_all
  qed
  then show "fst (GET newDate req s)
         = Resolves \<lparr>status = 500,
            body = Failure (or_else m ''Internal server error'') None\<rparr>"
    by (simp only: caught_Thrown)
next
  fix m
  assume "createClient s = Some (Thrown m) \<or> createClient s = None \<and> getUser s = Throws (Thrown m)"
  then show "fst (GET newDate req s)
         = Resolves \<lparr>status = 500,
            body = Failure (or_else m ''Internal server error'') None\<rparr>"
    by (auto simp: GET_def caught_Thrown)
next
  assume "createClient s \<noteq> Some Nullish \<and> getUser s \<noteq> Throws Nullish
        \<and> (\<forall>t. Call_from t \<in> set (snd (GET newDate req s)) \<longrightarrow>
               fault s t \<noteq> Some (Throw Nullish))"
  with GET_Rejects [of newDate req s] have "fst (GET newDate req s) \<noteq> Rejects"
    by blast
  then show "\<exists>r. fst (GET newDate req s) = Resolves r"
    by (cases "fst (GET newDate req s)") simp_all
next
  fix r
  assume "fst (GET newDate req s) = Resolves r"
  with reply_ok_GET [of newDate req s] have "envelope_ok r"
    by (simp add: reply_ok_def)
  then show "status r \<in> {200, 400, 401, 403, 404, 500}" and "success r = (status r = 200)"
    by (auto simp: envelope_ok_def success_def split: body.splits)
qed

text \<open>
  The theorem at the example store when the jobs query fails with a message, when the
  applications query fails with a code only, and when the applications query throws a
  value without a message.
\<close>

theorem store_failures_reported_witness:
  "Call_from Jobs
     \<in> set (snd (GET month_clock \<lparr>type_param = Some ''monthly''\<rparr> (failing Jobs (Fail boom) example_store)))
   \<and> fst (GET month_clock \<lparr>type_param = Some ''monthly''\<rparr> (failing Jobs (Fail boom) example_store))
       = Resolves \<lparr>status = 500, body = Failure ''connection reset'' (Some ''UNKNOWN_ERROR'')\<rparr>
   \<and> Call_from Applications
       \<in> set (snd (GET month_clock \<lparr>type_param = Some ''by-job''\<rparr>
                  (failing Applications (Fail timeout_error) example_store)))
   \<and> fst (GET month_clock \<lparr>type_param = Some ''by-job''\<rparr>
            (failing Applications (Fail timeout_error) example_store))
       = Resolves \<lparr>status = 500, body = Failure ''Failed to fetch job data'' (Some ''57014'')\<rparr>
   \<and> Call_from Applications
       \<in> set (snd (GET month_clock \<lparr>type_param = Some ''monthly''\<rparr>
                  (failing Applications (Throw (Thrown None)) example_store)))
   \<and> fst (GET month_clock \<lparr>type_param = Some ''monthly''\<rparr>
            (failing Applications (Throw (Thrown None)) example_store))
       = Resolves \<lparr>status = 500, body = Failure ''Internal server error'' None\<rparr>"
proof -
  let ?s1 = "failing Jobs (Fail boom) example_store"
  let ?s2 = "failing Applications (Fail timeout_error) example_store"
  let ?s3 = "failing Applications (Throw (Thrown None)) example_store"
  have 1: "Call_from Jobs \<in> set (snd (GET month_clock \<lparr>type_param = Some ''monthly''\<rparr> ?s1))"
    "fault ?s1 Jobs = Some (Fail boom)"
    by (simp_all add: handler_eval store_eval)
  have 2: "Call_from Applications \<in> set (snd (GET month_clock \<lparr>type_param = Some ''by-job''\<rparr> ?s2))"
    "fault ?s2 Applications = Some (Fail timeout_error)"
    by (simp_all add: handler_eval store_eval)
  have 3: "Call_from Applications \<in> set (snd (GET month_clock \<lparr>type_param = Some ''monthly''\<rparr> ?s3))"
    "fault ?s3 Applications = Some (Throw (Thrown None))"
    by (simp_all add: handler_eval store_eval)
  from store_failures_reported [of month_clock "\<lparr>type_param = Some ''monthly''\<rparr>" ?s1] 1
  have "fst (GET month_clock \<lparr>type_param = Some ''monthly''\<rparr> ?s1)
       = Resolves \<lparr>status = 500,
          body = Failure (or_else (message boom) (or_else (details boom) ''Failed to fetch jobs''))
                   (Some (or_else (code boom) ''UNKNOWN_ERROR''))\<rparr>"
    by blast
  then have "fst (GET month_clock \<lparr>type_param = Some ''monthly''\<rparr> ?s1)
       = Resolves \<lparr>status = 500, body = Failure ''connection reset'' (Some ''UNKNOWN_ERROR'')\<rparr>"
    by (simp add: boom_def or_else_def)
  moreover
  from store_failures_reported [of month_clock "\<lparr>type_param = Some ''by-job''\<rparr>" ?s2] 2
  have "fst (GET month_clock \<lparr>type_param = Some ''by-job''\<rparr> ?s2)
       = Resolves \<lparr>status = 500,
          body = Failure
                   (or_else (message timeout_error)
                      (or_else (details timeout_error)
                         (if type_param \<lparr>type_param = Some ''by-job''\<rparr> = Some ''monthly''
                          then ''Failed to fetch applications'' else ''Failed to fetch job data'')))
                   (Some (or_else (code timeout_error) ''UNKNOWN_ERROR''))\<rparr>"
    by blast
  then have "fst (GET month_clock \<lparr>type_param = Some ''by-job''\<rparr> ?s2)
       = Resolves \<lparr>status = 500, body = Failure ''Failed to fetch job data'' (Some ''57014'')\<rparr>"
    by (simp add: timeout_error_def or_else_def)
  moreover
  from store_failures_reported [of month_clock "\<lparr>type_param = Some ''monthly''\<rparr>" ?s3] 3
  have "fst (GET month_clock \<lparr>type_param = Some ''monthly''\<rparr> ?s3)
       = Resolves \<lparr>status = 500,
          body = Failure (or_else None ''Internal server error'') None\<rparr>"
    by blast
  then have "fst (GET month_clock \<lparr>type_param = Some ''monthly''\<rparr> ?s3)
       = Resolves \<lparr>status = 500, body = Failure ''Internal server error'' None\<rparr>"
    by (simp add: or_else_def)
  ultimately show ?thesis
    using 1(1) 2(1) 3(1) by blast
qed

text \<open>
  Claim C9 as stated fails for the profile query, which is a call to the store: the
  error it reports is answered with status 404, and neither the message nor a code is
  passed on.
\<close>

theorem profile_failure_404:
  "GET month_clock \<lparr>type_param = Some ''monthly''\<rparr> (failing Profiles (Fail boom) example_store)
     = (Resolves \<lparr>status = 404, body = Failure ''Profile not found'' None\<rparr>, [Call_getUser, Call_from Profiles])
   \<and> fault (failing Profiles (Fail boom) example_store) Profiles = Some (Fail boom)"
  by (simp add: handler_eval store_eval split: list.splits)

text \<open>
  Why the theorem leaves out calls that throw \<^verbatim>\<open>undefined\<close> or \<^verbatim>\<open>null\<close>: the \<^verbatim>\<open>catch\<close>
  block reads the \<^verbatim>\<open>message\<close> of what it caught, and for these two values the read
  throws. When the applications query rejects with \<^verbatim>\<open>undefined\<close>, the handler gives no
  response.
\<close>

lemma nullish_throw_not_answered:
  "GET month_clock \<lparr>type_param = Some ''monthly''\<rparr> (failing Applications (Throw Nullish) example_store)
     = (Rejects, [Call_getUser, Call_from Profiles, Call_from Jobs, Call_from Applications])"
  by (simp add: handler_eval store_eval split: list.splits)

subsection \<open>The rows of a success response\<close>

lemma keyed_once_Nil [simp]: "keyed_once []"
  by (simp add: keyed_once_def)

lemma keyed_once_monthlyData: "keyed_once (monthlyData newDate apps)"
proof -
  have eq: "map row_key (monthlyData newDate apps) = map month (monthlyData newDate apps)"
    by (simp add: monthlyData_eq row_key_def)
  have "distinct (map row_key (monthlyData newDate apps))"
    unfolding eq using monthly_strict [of newDate apps] by (simp add: strict_sorted_iff)
  moreover have "1 \<le> count r" if "r \<in> set (monthlyData newDate apps)" for r
  proof -
    from monthly_rows [OF that]
    have "month r \<in> set (month_keys newDate apps)"
      and "count r = count_list (month_keys newDate apps) (month r)"
      by (simp, metis row.sel(2))
    then show ?thesis
      using count_list_0_iff [of "month_keys newDate apps" "month r"] by simp
  qed
  ultimately show ?thesis
    by (simp add: keyed_once_def)
qed

lemma keyed_once_jobData: "keyed_once (jobData rows)"
proof -
  have eq: "map row_key (jobData rows) = map job_id (jobData rows)"
    by (simp add: jobData_ranking row_key_def group_row_def)
  have "distinct (map row_key (jobData rows))"
    unfolding eq by (simp add: job_ids_jobData)
  moreover have "1 \<le> count r" if "r \<in> set (jobData rows)" for r
  proof -
    from jobData_rows [OF that]
    have "job_id r \<in> set (group_keys rows)"
      and "count r = count_list (group_keys rows) (job_id r)"
      by (simp, metis count_group_row)
    then show ?thesis
      using count_list_0_iff [of "group_keys rows" "job_id r"] by simp
  qed
  ultimately show ?thesis
    by (simp add: keyed_once_def)
qed

lemma success_caught: "caught x = Resolves r \<Longrightarrow> body r \<noteq> Success rows"
  by (cases x) (auto simp: caught_def json_def)

lemma success_charts:
  "fst (charts newDate s t isAdmin jobIds) = Resolves r \<Longrightarrow> body r = Success rows \<Longrightarrow> keyed_once rows"
  by (auto simp: charts_result json_def store_failure_def keyed_once_monthlyData
        keyed_once_jobData dest: success_caught split: option.splits fault.splits if_splits)

lemma success_scoped:
  "fst (scoped newDate s uid t isAdmin) = Resolves r \<Longrightarrow> body r = Success rows \<Longrightarrow> keyed_once rows"
  by (auto simp: scoped_result json_def store_failure_def
        dest: success_charts success_caught split: option.splits fault.splits if_splits)

lemma success_authorized:
  "fst (authorized newDate req s uid) = Resolves r \<Longrightarrow> body r = Success rows \<Longrightarrow> keyed_once rows"
  by (auto simp: authorized_def json_def
        dest: success_scoped success_caught split: outcome.splits option.splits if_splits)

lemma success_GET:
  "fst (GET newDate req s) = Resolves r \<Longrightarrow> body r = Success rows \<Longrightarrow> keyed_once rows"
  by (auto simp: GET_def json_def
        dest: success_authorized success_caught split: outcome.splits option.splits)

text \<open>
  Claim C10. In every success response the rows have pairwise distinct keys (the month
  of a monthly row, the job id of a by-job row) and every row has a count of at least
  1.
\<close>

theorem success_rows_keyed_once:
  assumes "fst (GET newDate req s) = Resolves resp" and "body resp = Success rows"
  shows "distinct (map row_key rows) \<and> (\<forall>r\<in>set rows. 1 \<le> count r)"
  using success_GET [OF assms] by (simp add: keyed_once_def)


lemma jobData_own_rows:
  "jobData
     [\<lparr>ja_job_id = Some ''job-a'', ja_jobs = Some (Some ''Analyst'')\<rparr>,
      \<lparr>ja_job_id = Some ''job-a'', ja_jobs = Some (Some ''Analyst'')\<rparr>,
      \<lparr>ja_job_id = Some ''job-b'', ja_jobs = Some None\<rparr>]
     = [Job ''job-a'' ''Analyst'' 2, Job ''job-b'' ''Unknown Job'' 1]"
proof -
  let ?rows = "[\<lparr>ja_job_id = Some ''job-a'', ja_jobs = Some (Some ''Analyst'')\<rparr>,
      \<lparr>ja_job_id = Some ''job-a'', ja_jobs = Some (Some ''Analyst'')\<rparr>,
      \<lparr>ja_job_id = Some ''job-b'', ja_jobs = Some None\<rparr>]"
  have gk: "group_keys ?rows = [''job-a'', ''job-a'', ''job-b'']"
    by (simp add: group_keys_def row_eval Object_prototype_names_def)
  have ko: "key_order [''job-a'', ''job-b''] = [''job-a'', ''job-b'']"
    by (rule key_order_no_index) (simp add: is_array_index_def is_digit_def)
  have "ranking ?rows = [''job-a'', ''job-b'']"
    by (simp add: ranking_def gk ko)
  then show ?thesis
    by (simp add: jobData_ranking group_row_def gk) (simp add: group_title_def row_eval)
qed

lemma monthlyData_own_rows:
  "monthlyData month_clock [24290, 24289, 24288]
     = [Month ''2024-01'' 1, Month ''2024-02'' 1, Month ''2024-03'' 1]"
proof -
  have "month_keys month_clock [24290, 24289, 24288] = [''2024-03'', ''2024-02'', ''2024-01'']"
    by (simp add: monthKey_eval)
  then show ?thesis
    by (simp only: monthlyData_sort) (simp add: slice_last_def)
qed

lemma GET_example_by_job:
  "GET month_clock \<lparr>type_param = Some ''by-job''\<rparr> example_store
     = (Resolves \<lparr>status = 200, body = Success [Job ''job-a'' ''Analyst'' 2, Job ''job-b'' ''Unknown Job'' 1]\<rparr>,
        [Call_getUser, Call_from Profiles, Call_from Jobs, Call_from Applications])"
  by (simp add: handler_eval store_eval embed_job_def in_job_ids_def jobData_own_rows)

lemma GET_example_monthly:
  "GET month_clock \<lparr>type_param = Some ''monthly''\<rparr> example_store
     = (Resolves \<lparr>status = 200,
         body = Success [Month ''2024-01'' 1, Month ''2024-02'' 1, Month ''2024-03'' 1]\<rparr>,
        [Call_getUser, Call_from Profiles, Call_from Jobs, Call_from Applications])"
  by (simp add: handler_eval store_eval in_job_ids_def monthlyData_own_rows)

text \<open>
  The theorem at the two responses to the caller \<^verbatim>\<open>hr-1\<close> of the example store.
\<close>

theorem success_rows_keyed_once_witness:
  "fst (GET month_clock \<lparr>type_param = Some ''by-job''\<rparr> example_store)
     = Resolves \<lparr>status = 200,
                 body = Success [Job ''job-a'' ''Analyst'' 2, Job ''job-b'' ''Unknown Job'' 1]\<rparr>
   \<and> distinct (map row_key [Job ''job-a'' ''Analyst'' 2, Job ''job-b'' ''Unknown Job'' 1])
   \<and> 1 \<le> count (Job ''job-a'' ''Analyst'' 2) \<and> 1 \<le> count (Job ''job-b'' ''Unknown Job'' 1)
   \<and> fst (GET month_clock \<lparr>type_param = Some ''monthly''\<rparr> example_store)
     = Resolves \<lparr>status = 200,
                 body = Success [Month ''2024-01'' 1, Month ''2024-02'' 1, Month ''2024-03'' 1]\<rparr>
   \<and> distinct (map row_key [Month ''2024-01'' 1, Month ''2024-02'' 1, Month ''2024-03'' 1])"
proof -
  let ?J = "[Job ''job-a'' ''Analyst'' 2, Job ''job-b'' ''Unknown Job'' 1]"
  let ?M = "[Month ''2024-01'' 1, Month ''2024-02'' 1, Month ''2024-03'' 1]"
  have j: "fst (GET month_clock \<lparr>type_param = Some ''by-job''\<rparr> example_store)
     = Resolves \<lparr>status = 200, body = Success ?J\<rparr>"
    by (simp add: GET_example_by_job)
  have m: "fst (GET month_clock \<lparr>type_param = Some ''monthly''\<rparr> example_store)
     = Resolves \<lparr>status = 200, body = Success ?M\<rparr>"
    by (simp add: GET_example_monthly)
  from success_rows_keyed_once [OF j, of ?J] success_rows_keyed_once [OF m, of ?M] j m
  show ?thesis
    by simp
qed

subsection \<open>Scope isolation\<close>

lemma find_by_key:
  "distinct (map f xs) \<Longrightarrow> x \<in> set xs \<Longrightarrow> find (\<lambda>y. f y = f x) xs = Some x"
  by (induction xs) force+

lemma embed_own_job:
  assumes "distinct (map j_id (jobs s1))" and "distinct (map j_id (jobs s2))"
    and own: "filter (\<lambda>j. j_created_by j = uid) (jobs s1) = filter (\<lambda>j. j_created_by j = uid) (jobs s2)"
    and a: "in_job_ids (Some (own_job_ids s1 uid)) a"
  shows "embed_job s1 a = embed_job s2 a"
proof -
  from a obtain k where k: "a_job_id a = Some k" "k \<in> set (own_job_ids s1 uid)"
    by (auto simp: in_job_ids_def split: option.splits)
  then obtain j where j: "j \<in> set (filter (\<lambda>j. j_created_by j = uid) (jobs s1))" "j_id j = k"
    by (auto simp: own_job_ids_def)
  then have "j \<in> set (jobs s1)"
    by simp
  moreover from j(1) have "j \<in> set (jobs s2)"
    by (simp only: own) simp
  ultimately have "find (\<lambda>j'. j_id j' = j_id j) (jobs s1) = Some j"
    and "find (\<lambda>j'. j_id j' = j_id j) (jobs s2) = Some j"
    using assms(1,2) by (simp_all add: find_by_key)
  with k(1) j(2) show ?thesis
    by (simp add: embed_job_def)
qed

lemma charts_own_scope:
  assumes "fault s1 = fault s2"
    and "distinct (map j_id (jobs s1))" and "distinct (map j_id (jobs s2))"
    and own: "filter (\<lambda>j. j_created_by j = uid) (jobs s1) = filter (\<lambda>j. j_created_by j = uid) (jobs s2)"
    and apps: "filter (in_job_ids (Some (own_job_ids s1 uid))) (applications s1)
                 = filter (in_job_ids (Some (own_job_ids s1 uid))) (applications s2)"
    and "own_job_ids s1 uid \<noteq> []"
  shows "charts newDate s1 t False (own_job_ids s1 uid) = charts newDate s2 t False (own_job_ids s1 uid)"
proof -
  let ?ids = "own_job_ids s1 uid"
  let ?scope = "if \<not> False \<and> length ?ids > 0 then Some ?ids else None"
  have scope: "?scope = Some ?ids"
    using assms(6) by simp
  have m: "filter (in_job_ids ?scope) (applications s1) = filter (in_job_ids ?scope) (applications s2)"
    by (simp only: scope apps)
  have "map (embed_job s1) (filter (in_job_ids (Some ?ids)) (applications s1))
          = map (embed_job s2) (filter (in_job_ids (Some ?ids)) (applications s1))"
    by (rule map_cong) (simp_all add: embed_own_job [OF assms(2,3) own])
  then have j: "map (embed_job s1) (filter (in_job_ids ?scope) (applications s2))
          = map (embed_job s2) (filter (in_job_ids ?scope) (applications s2))"
    by (simp only: scope apps)
  show ?thesis
    by (simp only: charts_result assms(1) m j)
qed

text \<open>
  Claim C1. Take two stores with the same session, that of a caller with an \<^verbatim>\<open>HR\<close>
  profile in both, and the same failures of calls; in each, job ids are unique, as the
  join on \<^verbatim>\<open>job_id\<close> requires. If the stores have the same jobs with the caller as
  \<^verbatim>\<open>created_by\<close> and the same applications whose \<^verbatim>\<open>job_id\<close> is the id of one of these
  jobs, then the handler gives the same response, and makes the same calls, on both,
  for every \<^verbatim>\<open>type\<close> parameter and so for both chart types: what the stores hold for
  other users does not show.
\<close>

theorem hr_scope_isolation:
  assumes "createClient s1 = createClient s2" and "getUser s1 = getUser s2"
    and "fault s1 = fault s2"
    and "getUser s1 = Returns a" and "user a = Some uid"
    and "select_role s1 uid = Returns \<lparr>data = Some ''HR'', error = None\<rparr>"
    and "select_role s2 uid = Returns \<lparr>data = Some ''HR'', error = None\<rparr>"
    and "distinct (map j_id (jobs s1))" and "distinct (map j_id (jobs s2))"
    and "filter (\<lambda>j. j_created_by j = uid) (jobs s1) = filter (\<lambda>j. j_created_by j = uid) (jobs s2)"
    and "filter (in_job_ids (Some (own_job_ids s1 uid))) (applications s1)
           = filter (in_job_ids (Some (own_job_ids s1 uid))) (applications s2)"
  shows "GET newDate req s1 = GET newDate req s2"
proof -
  have ids: "own_job_ids s2 uid = own_job_ids s1 uid"
    by (simp add: own_job_ids_def assms(10))
  have "scoped newDate s1 uid t False = scoped newDate s2 uid t False" for t
    using charts_own_scope [OF assms(3,8,9,10,11), of newDate t]
    by (simp add: scoped_result ids assms(3) split: option.splits fault.splits)
  then have eq: "authorized newDate req s1 uid = authorized newDate req s2 uid"
    by (simp add: authorized_def assms(6,7))
  have g: "getUser s2 = Returns a"
    using assms(2,4) by simp
  show ?thesis
    by (simp add: GET_def assms(1,4,5) g eq split: option.splits)
qed


text \<open>
  The theorem at the example store and at a store that has one more user, a job of
  this user and other applications of other users' jobs: the caller \<^verbatim>\<open>hr-1\<close> gets the
  same responses.
\<close>

theorem hr_scope_isolation_witness:
  "applications example_store \<noteq> applications other_store
   \<and> jobs example_store \<noteq> jobs other_store
   \<and> GET month_clock \<lparr>type_param = Some ''by-job''\<rparr> example_store
       = GET month_clock \<lparr>type_param = Some ''by-job''\<rparr> other_store
   \<and> GET month_clock \<lparr>type_param = Some ''monthly''\<rparr> example_store
       = GET month_clock \<lparr>type_param = Some ''monthly''\<rparr> other_store
   \<and> fst (GET month_clock \<lparr>type_param = Some ''by-job''\<rparr> other_store)
       = Resolves \<lparr>status = 200, body = Success [Job ''job-a'' ''Analyst'' 2, Job ''job-b'' ''Unknown Job'' 1]\<rparr>"
proof -
  have h: "createClient example_store = createClient other_store"
    "getUser example_store = getUser other_store"
    "fault example_store = fault other_store"
    "getUser example_store = Returns \<lparr>user = Some ''hr-1'', authError = None\<rparr>"
    "user \<lparr>user = Some ''hr-1'', authError = None\<rparr> = Some ''hr-1''"
    "select_role example_store ''hr-1'' = Returns \<lparr>data = Some ''HR'', error = None\<rparr>"
    "select_role other_store ''hr-1'' = Returns \<lparr>data = Some ''HR'', error = None\<rparr>"
    "distinct (map j_id (jobs example_store))" "distinct (map j_id (jobs other_store))"
    "filter (\<lambda>j. j_created_by j = ''hr-1'') (jobs example_store)
       = filter (\<lambda>j. j_created_by j = ''hr-1'') (jobs other_store)"
    "filter (in_job_ids (Some (own_job_ids example_store ''hr-1''))) (applications example_store)
       = filter (in_job_ids (Some (own_job_ids example_store ''hr-1''))) (applications other_store)"
    by (simp_all add: other_store_def store_eval in_job_ids_def)
  have d: "applications example_store \<noteq> applications other_store"
    "jobs example_store \<noteq> jobs other_store"
    by (simp_all add: other_store_def example_store_def)
  note eq = hr_scope_isolation [OF h, where newDate = month_clock]
  have "fst (GET month_clock \<lparr>type_param = Some ''by-job''\<rparr> other_store)
       = Resolves \<lparr>status = 200, body = Success [Job ''job-a'' ''Analyst'' 2, Job ''job-b'' ''Unknown Job'' 1]\<rparr>"
    by (simp only: eq [of "\<lparr>type_param = Some ''by-job''\<rparr>", symmetric] GET_example_by_job fst_conv)
  with eq [of "\<lparr>type_param = Some ''by-job''\<rparr>"] eq [of "\<lparr>type_param = Some ''monthly''\<rparr>"] d
  show ?thesis
    by blast
qed

end
